theory Spec2Isabelle
  imports Complex_Main "HOL-Library.Word"
begin

section \<open>Spectrum notch filter nodes (nodes.py)\<close>

text \<open>
  A shallow embedding of \<^verbatim>\<open>nodes.py\<close>. Arrays are nested lists in the order of the
  source's axes: a batch is \<open>B \<times> H \<times> W \<times> C\<close>, a frame \<open>H \<times> W \<times> C\<close>, a plane (grayscale
  array, mask) \<open>H \<times> W\<close>. A float32 sample is the real number it stands for (\<open>NaN\<close> and the
  infinities are left out); the rounded float32 arithmetic of the grayscale reduction and
  of the detection threshold is numpy's and is a parameter. Pixel coordinates, radii and
  the integer widgets are Python integers; numpy's index grids (\<^verbatim>\<open>np.ogrid\<close>) are
  64-bit, and the squared distance to a peak or a point wraps around as int64 does.
\<close>

subsection \<open>Python values, errors and the external libraries\<close>

datatype py_error =
    ValueError | IndexError | TypeError | AttributeError | OverflowError | JSONDecodeError

text \<open>The value \<^verbatim>\<open>json.loads\<close> returns; a dict is kept as its list of items.\<close>

datatype json =
    JNull
  | JBool bool
  | JInt int
  | JFloat real
  | JNaN
  | JInfinity bool
  | JStr string
  | JArr "json list"
  | JObj "(string \<times> json) list"

type_synonym pixel = "real list"
type_synonym plane = "real list list"
type_synonym frame = "real list list list"
type_synonym batch = "real list list list list"

text \<open>
  A rounded float32 product of numpy: whatever the rounding, a finite factor times zero
  is zero.
\<close>

typedef fmul = "{m :: real \<Rightarrow> real \<Rightarrow> real. \<forall>a. m a 0 = 0}"
  by (rule exI [of _ "\<lambda>a b. a * b"]) simp

text \<open>
  The functions of \<^verbatim>\<open>json\<close>, of Python's \<^verbatim>\<open>int\<close> on strings, of
  \<^verbatim>\<open>scipy.ndimage.gaussian_filter\<close> and numpy's float32 arithmetic are not part of the
  repository. They are parameters of the model: \<open>gaussian_filter lib m s y x\<close> is the
  sample at row \<open>y\<close>, column \<open>x\<close> of the blurred plane, which has the shape of its input;
  \<open>f32_mul\<close> is the product of a Python float and a sample of a float32 array,
  \<open>f32_add\<close> the sum of two such samples, and \<open>f32_scalar_mul\<close> the value that
  \<^verbatim>\<open>threshold_rel * gray.max()\<close> has when the array is compared with it.
\<close>

record extern =
  json_loads :: "string \<Rightarrow> py_error + json"
  json_dumps :: "json \<Rightarrow> string"
  str_to_int :: "string \<Rightarrow> py_error + int"
  gaussian_filter :: "plane \<Rightarrow> int \<Rightarrow> nat \<Rightarrow> nat \<Rightarrow> real"
  f32_mul :: fmul
  f32_add :: "real \<Rightarrow> real \<Rightarrow> real"
  f32_scalar_mul :: fmul

text \<open>The input tensor: \<open>(B, H, W)\<close> or \<open>(B, H, W, C)\<close>.\<close>

datatype tensor = T3 "real list list list" | T4 batch

subsection \<open>Array helpers\<close>

definition mk_grid :: "nat \<Rightarrow> nat \<Rightarrow> (nat \<Rightarrow> nat \<Rightarrow> 'a) \<Rightarrow> 'a list list" where
  "mk_grid H W f = map (\<lambda>y. map (\<lambda>x. f y x) [0..<W]) [0..<H]"

text \<open>
  \<^verbatim>\<open>img_np.shape\<close>: a tensor is rectangular (\<open>batch_shape\<close> below), so its shape is read
  off the first frame, row and pixel. For a batch without frames and for frames without
  pixels the nodes are modelled as ending with an error.
\<close>

definition shape4 :: "batch \<Rightarrow> nat \<times> nat \<times> nat \<times> nat" where
  "shape4 img =
     (length img,
      (case img of [] \<Rightarrow> 0 | f # _ \<Rightarrow> length f),
      (case img of (r # _) # _ \<Rightarrow> length r | _ \<Rightarrow> 0),
      (case img of ((p # _) # _) # _ \<Rightarrow> length p | _ \<Rightarrow> 0))"

definition has_shape :: "nat \<Rightarrow> nat \<Rightarrow> nat \<Rightarrow> frame \<Rightarrow> bool" where
  "has_shape H W C fr \<longleftrightarrow>
     length fr = H \<and> list_all (\<lambda>row. length row = W \<and> list_all (\<lambda>px. length px = C) row) fr"

definition batch_shape :: "nat \<Rightarrow> nat \<Rightarrow> nat \<Rightarrow> nat \<Rightarrow> batch \<Rightarrow> bool" where
  "batch_shape B H W C img \<longleftrightarrow> length img = B \<and> list_all (has_shape H W C) img"

text \<open>\<^verbatim>\<open>img_np[:, :, :, np.newaxis]\<close> when the tensor has three axes.\<close>

fun to_bhwc :: "tensor \<Rightarrow> batch" where
  "to_bhwc (T3 t) = map (map (map (\<lambda>v. [v]))) t"
| "to_bhwc (T4 t) = t"

definition clip01 :: "real \<Rightarrow> real" where
  "clip01 v = min 1 (max 0 v)"

text \<open>
  \<^verbatim>\<open>(X - cx) ** 2 + (Y - cy) ** 2 <= radius ** 2\<close> at row \<open>y\<close>, column \<open>x\<close>, for the
  centre of the frame: both differences are below the sides of the frame, and the squares
  are taken as exact.
\<close>

definition in_disk :: "int \<Rightarrow> int \<Rightarrow> int \<Rightarrow> nat \<Rightarrow> nat \<Rightarrow> bool" where
  "in_disk r c radius y x \<longleftrightarrow> (int x - c)\<^sup>2 + (int y - r)\<^sup>2 \<le> radius\<^sup>2"

text \<open>
  The same test for a peak or a point, whose coordinates are any Python integers: the
  left-hand side is int64 arithmetic on the index grids and wraps around, the right-hand
  side is a Python integer.
\<close>

definition wrap64 :: "int \<Rightarrow> int" where
  "wrap64 v = (v + 2 ^ 63) mod 2 ^ 64 - 2 ^ 63"

definition in_disk64 :: "int \<Rightarrow> int \<Rightarrow> int \<Rightarrow> nat \<Rightarrow> nat \<Rightarrow> bool" where
  "in_disk64 r c radius y x \<longleftrightarrow>
     wrap64 (wrap64 ((wrap64 (int x - c))\<^sup>2) + wrap64 ((wrap64 (int y - r))\<^sup>2)) \<le> radius\<^sup>2"

subsection \<open>\<^verbatim>\<open>_to_gray\<close>\<close>

definition to_gray :: "extern \<Rightarrow> nat \<Rightarrow> frame \<Rightarrow> py_error + plane" where
  "to_gray lib C fr =
     (if C \<ge> 3 then
        Inr (map (map (\<lambda>px.
          f32_add lib
            (f32_add lib (Rep_fmul (f32_mul lib) 0.299 (px ! 0))
                         (Rep_fmul (f32_mul lib) 0.587 (px ! 1)))
            (Rep_fmul (f32_mul lib) 0.114 (px ! 2)))) fr)
      else if C = 0 then Inl IndexError
      else Inr (map (map (\<lambda>px. px ! 0)) fr))"

subsection \<open>\<^verbatim>\<open>_build_circular_mask\<close>\<close>

text \<open>One pass of the loop body: \<^verbatim>\<open>mask[circle] = 1.0\<close>.\<close>

definition paint_disk :: "nat \<Rightarrow> nat \<Rightarrow> int \<Rightarrow> plane \<Rightarrow> int \<times> int \<Rightarrow> plane" where
  "paint_disk H W radius msk peak =
     mk_grid H W (\<lambda>y x. if in_disk64 (fst peak) (snd peak) radius y x then 1 else msk ! y ! x)"

definition feather_mask :: "extern \<Rightarrow> nat \<Rightarrow> nat \<Rightarrow> int \<Rightarrow> plane \<Rightarrow> plane" where
  "feather_mask lib H W feather msk =
     (if feather > 0 then mk_grid H W (\<lambda>y x. clip01 (gaussian_filter lib msk feather y x))
      else msk)"

definition build_circular_mask ::
  "extern \<Rightarrow> nat \<Rightarrow> nat \<Rightarrow> (int \<times> int) list \<Rightarrow> int \<Rightarrow> int \<Rightarrow> plane" where
  "build_circular_mask lib H W peaks radius feather =
     feather_mask lib H W feather
       (foldl (paint_disk H W radius) (mk_grid H W (\<lambda>y x. 0)) peaks)"

subsection \<open>\<^verbatim>\<open>_save_temp_image\<close>\<close>

text \<open>
  \<^verbatim>\<open>astype(np.uint8)\<close> drops the fraction of the (non-negative, at most 255) sample.
  The function's result in the model is the raster handed to \<^verbatim>\<open>pil.save\<close>; the name of
  the temporary file is left out. A single channel is converted to three equal ones;
  otherwise \<^verbatim>\<open>Image.fromarray\<close> is given the first three channels, or the two there are
  (a gray and an alpha channel). An image without pixels cannot be written.
\<close>

definition to_u8 :: "real \<Rightarrow> 8 word" where
  "to_u8 v = word_of_int (if v \<ge> 0 then \<lfloor>v\<rfloor> else \<lceil>v\<rceil>)"

definition encode_sample :: "real \<Rightarrow> 8 word" where
  "encode_sample v = to_u8 (clip01 v * 255)"

definition save_temp_image :: "nat \<Rightarrow> frame \<Rightarrow> py_error + 8 word list list list" where
  "save_temp_image C fr =
     (let img_u8 = map (map (map encode_sample)) fr in
      if concat fr = [] then Inl ValueError
      else if C = 1 then Inr (map (map (\<lambda>px. [px ! 0, px ! 0, px ! 0])) img_u8)
      else if C = 0 then Inl TypeError
      else Inr (map (map (take 3)) img_u8))"

subsection \<open>\<^verbatim>\<open>_annotate_preview\<close>\<close>

definition in_ring :: "int \<Rightarrow> int \<Rightarrow> int \<Rightarrow> int \<Rightarrow> nat \<Rightarrow> nat \<Rightarrow> bool" where
  "in_ring r c outer inner y x \<longleftrightarrow> in_disk r c outer y x \<and> \<not> in_disk r c inner y x"

definition in_ring64 :: "int \<Rightarrow> int \<Rightarrow> int \<Rightarrow> int \<Rightarrow> nat \<Rightarrow> nat \<Rightarrow> bool" where
  "in_ring64 r c outer inner y x \<longleftrightarrow> in_disk64 r c outer y x \<and> \<not> in_disk64 r c inner y x"

definition tint_dc :: "nat \<Rightarrow> nat \<Rightarrow> nat \<Rightarrow> int \<Rightarrow> frame \<Rightarrow> frame" where
  "tint_dc H W C dc_r preview =
     (if dc_r > 0 \<and> C \<ge> 3 then
        mk_grid H W (\<lambda>y x.
          if in_ring (int H div 2) (int W div 2) (dc_r + 1) (dc_r - 1) y x
          then (preview ! y ! x)[0 := 0.2, 1 := 0.5, 2 := 1.0]
          else preview ! y ! x)
      else preview)"

definition tint_peak :: "nat \<Rightarrow> nat \<Rightarrow> nat \<Rightarrow> int \<Rightarrow> frame \<Rightarrow> int \<times> int \<Rightarrow> frame" where
  "tint_peak H W C radius preview peak =
     mk_grid H W (\<lambda>y x.
       if in_ring64 (fst peak) (snd peak) (radius + 2) (max 0 (radius - 1)) y x
       then (if C \<ge> 3 then (preview ! y ! x)[0 := 1.0, 1 := 0.9, 2 := 0.0]
             else (preview ! y ! x)[0 := 1.0])
       else preview ! y ! x)"

definition annotate_preview ::
  "frame \<Rightarrow> (int \<times> int) list \<Rightarrow> int \<Rightarrow> int \<Rightarrow> nat \<Rightarrow> nat \<Rightarrow> nat \<Rightarrow> frame" where
  "annotate_preview fr peaks radius dc_r H W C =
     foldl (tint_peak H W C radius)
       (tint_dc H W C dc_r (map (map (map clip01)) fr)) peaks"

subsection \<open>Peak detection of \<^verbatim>\<open>SpectrumNotchAutoNode.apply_notch\<close>\<close>

text \<open>
  \<^verbatim>\<open>scipy.ndimage.maximum_filter\<close> with its default boundary mode \<^verbatim>\<open>reflect\<close>
  (\<^verbatim>\<open>d c b a | a b c d | d c b a\<close>): the window of side \<open>size\<close> (odd at its only call)
  is centred on the sample, and an index outside the axis is mirrored back into it.
\<close>

definition reflect_index :: "nat \<Rightarrow> int \<Rightarrow> nat" where
  "reflect_index n j =
     (let m = j mod (2 * int n) in nat (if m < int n then m else 2 * int n - 1 - m))"

definition window :: "int \<Rightarrow> int list" where
  "window sz = [- (sz div 2) .. sz div 2]"

definition maximum_filter :: "nat \<Rightarrow> nat \<Rightarrow> plane \<Rightarrow> int \<Rightarrow> plane" where
  "maximum_filter H W g sz =
     mk_grid H W (\<lambda>y x.
       Max (set (concat (map (\<lambda>dy. map (\<lambda>dx.
         g ! reflect_index H (int y + dy) ! reflect_index W (int x + dx))
         (window sz)) (window sz)))))"

text \<open>\<^verbatim>\<open>gray.max()\<close> raises on an array without elements.\<close>

definition amax :: "plane \<Rightarrow> py_error + real" where
  "amax g = (if concat g = [] then Inl ValueError else Inr (Max (set (concat g))))"

definition is_peak ::
  "extern \<Rightarrow> nat \<Rightarrow> nat \<Rightarrow> plane \<Rightarrow> plane \<Rightarrow> real \<Rightarrow> real \<Rightarrow> int \<Rightarrow> nat \<Rightarrow> nat \<Rightarrow> bool" where
  "is_peak lib H W gray nbhd threshold_rel gmax protect_dc y x \<longleftrightarrow>
     (gray ! y ! x = nbhd ! y ! x \<and>
      gray ! y ! x \<ge> Rep_fmul (f32_scalar_mul lib) threshold_rel gmax)
     \<and> \<not> (protect_dc > 0 \<and> in_disk (int H div 2) (int W div 2) protect_dc y x)"

text \<open>\<^verbatim>\<open>np.argwhere(local_max).tolist()\<close>: the \<open>[row, col]\<close> pairs in row-major order.\<close>

definition argwhere :: "nat \<Rightarrow> nat \<Rightarrow> (nat \<Rightarrow> nat \<Rightarrow> bool) \<Rightarrow> (int \<times> int) list" where
  "argwhere H W P =
     concat (map (\<lambda>y. map (\<lambda>x. (int y, int x)) (filter (P y) [0..<W])) [0..<H])"

definition detect_peaks ::
  "extern \<Rightarrow> nat \<Rightarrow> nat \<Rightarrow> plane \<Rightarrow> real \<Rightarrow> int \<Rightarrow> int \<Rightarrow> py_error + (int \<times> int) list" where
  "detect_peaks lib H W gray threshold_rel min_distance protect_dc =
     (let nbhd = maximum_filter H W gray (max 3 (min_distance * 2 + 1)) in
      case amax gray of
        Inl e \<Rightarrow> Inl e
      | Inr gmax \<Rightarrow>
          Inr (argwhere H W (is_peak lib H W gray nbhd threshold_rel gmax protect_dc)))"

subsection \<open>\<^verbatim>\<open>SpectrumNotchAutoNode.apply_notch\<close>\<close>

text \<open>\<^verbatim>\<open>frame * (1.0 - mask[:, :, np.newaxis])\<close>\<close>

definition apply_mask :: "frame \<Rightarrow> plane \<Rightarrow> frame" where
  "apply_mask fr msk =
     map2 (\<lambda>row mrow. map2 (\<lambda>px m. map (\<lambda>v. v * (1 - m)) px) row mrow) fr msk"

text \<open>\<^verbatim>\<open>np.stack([mask, mask, mask], axis=-1)\<close>\<close>

definition mask_image :: "plane \<Rightarrow> frame" where
  "mask_image msk = map (map (\<lambda>m. [m, m, m])) msk"

record auto_frame_out =
  af_filtered :: frame
  af_mask :: plane
  af_mask_img :: frame
  af_preview :: frame
  af_peaks :: "(int \<times> int) list"

definition auto_frame ::
  "extern \<Rightarrow> nat \<Rightarrow> nat \<Rightarrow> nat \<Rightarrow> real \<Rightarrow> int \<Rightarrow> int \<Rightarrow> int \<Rightarrow> int \<Rightarrow> frame
     \<Rightarrow> py_error + auto_frame_out" where
  "auto_frame lib H W C threshold_rel min_distance notch_radius protect_dc feather fr =
     (if H = 0 \<or> W = 0 then Inl ValueError else
      case to_gray lib C fr of
        Inl e \<Rightarrow> Inl e
      | Inr gray \<Rightarrow>
         (case detect_peaks lib H W gray threshold_rel min_distance protect_dc of
            Inl e \<Rightarrow> Inl e
          | Inr peaks \<Rightarrow>
              (let msk = build_circular_mask lib H W peaks notch_radius feather in
               Inr \<lparr> af_filtered = apply_mask fr msk,
                     af_mask = msk,
                     af_mask_img = mask_image msk,
                     af_preview = annotate_preview fr peaks notch_radius protect_dc H W C,
                     af_peaks = peaks \<rparr>)))"

text \<open>
  The test on the sides stands for \<^verbatim>\<open>gray.max()\<close>, which raises on a frame without
  pixels whatever its channels are.
\<close>

text \<open>The frames in order; the first exception ends the loop.\<close>

fun for_frames :: "('a \<Rightarrow> py_error + 'b) \<Rightarrow> 'a list \<Rightarrow> py_error + 'b list" where
  "for_frames f [] = Inr []"
| "for_frames f (x # xs) =
     (case f x of
        Inl e \<Rightarrow> Inl e
      | Inr y \<Rightarrow> (case for_frames f xs of Inl e \<Rightarrow> Inl e | Inr ys \<Rightarrow> Inr (y # ys)))"

definition peak_json :: "int \<Rightarrow> int \<times> int \<Rightarrow> json" where
  "peak_json notch_radius p =
     JObj [(''x'', JInt (snd p)), (''y'', JInt (fst p)), (''r'', JInt notch_radius)]"

record auto_out =
  filtered_spectrum :: batch
  notch_mask :: batch
  preview :: batch
  peak_positions :: string

definition apply_notch ::
  "extern \<Rightarrow> tensor \<Rightarrow> real \<Rightarrow> int \<Rightarrow> int \<Rightarrow> int \<Rightarrow> int \<Rightarrow> py_error + auto_out" where
  "apply_notch lib spectrum threshold_rel min_distance notch_radius protect_dc feather =
     (let img_np = to_bhwc spectrum; (B, H, W, C) = shape4 img_np in
      case for_frames
             (auto_frame lib H W C threshold_rel min_distance notch_radius protect_dc feather)
             img_np of
        Inl e \<Rightarrow> Inl e
      | Inr outs \<Rightarrow>
          (let all_peaks = (case outs of [] \<Rightarrow> [] | out0 # _ \<Rightarrow>
                              map (peak_json notch_radius) (af_peaks out0)) in
           if outs = [] then Inl ValueError
           else Inr \<lparr> filtered_spectrum = map af_filtered outs,
                      notch_mask = map af_mask_img outs,
                      preview = map af_preview outs,
                      peak_positions = json_dumps lib (JArr all_peaks) \<rparr>))"

subsection \<open>\<^verbatim>\<open>SpectrumNotchManualNode.apply_manual_notch\<close>\<close>

text \<open>The \<^verbatim>\<open>try\<close> block: a failed parse and a value that is no list give no points.\<close>

definition parse_points :: "extern \<Rightarrow> string \<Rightarrow> json list" where
  "parse_points lib notch_points =
     (case json_loads lib notch_points of
        Inr (JArr points) \<Rightarrow> points
      | _ \<Rightarrow> [])"

text \<open>\<^verbatim>\<open>p.get(key, default)\<close>: only a dict has the method.\<close>

fun py_get :: "json \<Rightarrow> string \<Rightarrow> json \<Rightarrow> py_error + json" where
  "py_get (JObj items) key dflt =
     Inr (case map_of items key of None \<Rightarrow> dflt | Some v \<Rightarrow> v)"
| "py_get _ key dflt = Inl AttributeError"

text \<open>Python's \<^verbatim>\<open>int(v)\<close> on a JSON value.\<close>

fun py_int :: "extern \<Rightarrow> json \<Rightarrow> py_error + int" where
  "py_int lib (JInt i) = Inr i"
| "py_int lib (JBool b) = Inr (if b then 1 else 0)"
| "py_int lib (JFloat f) = Inr (if f \<ge> 0 then \<lfloor>f\<rfloor> else \<lceil>f\<rceil>)"
| "py_int lib JNaN = Inl ValueError"
| "py_int lib (JInfinity _) = Inl OverflowError"
| "py_int lib (JStr s) = str_to_int lib s"
| "py_int lib JNull = Inl TypeError"
| "py_int lib (JArr _) = Inl TypeError"
| "py_int lib (JObj _) = Inl TypeError"

definition get_int :: "extern \<Rightarrow> string \<Rightarrow> int \<Rightarrow> json \<Rightarrow> py_error + int" where
  "get_int lib key dflt p =
     (case py_get p key (JInt dflt) of Inl e \<Rightarrow> Inl e | Inr v \<Rightarrow> py_int lib v)"

definition point_peak :: "extern \<Rightarrow> json \<Rightarrow> py_error + int \<times> int" where
  "point_peak lib p =
     (case get_int lib ''y'' 0 p of
        Inl e \<Rightarrow> Inl e
      | Inr r \<Rightarrow> (case get_int lib ''x'' 0 p of Inl e \<Rightarrow> Inl e | Inr c \<Rightarrow> Inr (r, c)))"

text \<open>
  The two comprehensions of the loop body and their \<^verbatim>\<open>zip\<close>: the circles
  \<open>((row, col), radius)\<close>.
\<close>

definition point_circles :: "extern \<Rightarrow> json list \<Rightarrow> py_error + ((int \<times> int) \<times> int) list" where
  "point_circles lib points =
     (case for_frames (point_peak lib) points of
        Inl e \<Rightarrow> Inl e
      | Inr peaks \<Rightarrow>
          (case for_frames (get_int lib ''r'' 8) points of
             Inl e \<Rightarrow> Inl e
           | Inr radii \<Rightarrow> Inr (zip peaks radii)))"

definition paint_circle :: "nat \<Rightarrow> nat \<Rightarrow> plane \<Rightarrow> (int \<times> int) \<times> int \<Rightarrow> plane" where
  "paint_circle H W msk circle = paint_disk H W (snd circle) msk (fst circle)"

text \<open>The mask of a frame before feathering: the circles, then the DC zone.\<close>

definition manual_mask :: "nat \<Rightarrow> nat \<Rightarrow> ((int \<times> int) \<times> int) list \<Rightarrow> int \<Rightarrow> plane" where
  "manual_mask H W circles protect_dc =
     (let msk = foldl (paint_circle H W) (mk_grid H W (\<lambda>y x. 0)) circles in
      if protect_dc > 0
      then paint_disk H W protect_dc msk (int H div 2, int W div 2)
      else msk)"

record manual_frame_out =
  mf_filtered :: frame
  mf_mask :: plane

definition manual_frame ::
  "extern \<Rightarrow> nat \<Rightarrow> nat \<Rightarrow> json list \<Rightarrow> int \<Rightarrow> int \<Rightarrow> frame \<Rightarrow> py_error + manual_frame_out" where
  "manual_frame lib H W points feather protect_dc fr =
     (case point_circles lib points of
        Inl e \<Rightarrow> Inl e
      | Inr circles \<Rightarrow>
          (let msk = feather_mask lib H W feather (manual_mask H W circles protect_dc) in
           Inr \<lparr> mf_filtered = apply_mask fr msk, mf_mask = msk \<rparr>))"

record manual_out =
  ui_image :: "8 word list list list"
  m_filtered_spectrum :: batch
  m_notch_mask :: batch

definition apply_manual_notch ::
  "extern \<Rightarrow> tensor \<Rightarrow> string \<Rightarrow> int \<Rightarrow> int \<Rightarrow> py_error + manual_out" where
  "apply_manual_notch lib spectrum notch_points feather protect_dc =
     (let points = parse_points lib notch_points;
          img_np = to_bhwc spectrum; (B, H, W, C) = shape4 img_np in
      case for_frames (manual_frame lib H W points feather protect_dc) img_np of
        Inl e \<Rightarrow> Inl e
      | Inr outs \<Rightarrow>
          (case img_np of
             [] \<Rightarrow> Inl ValueError
           | frame0 # _ \<Rightarrow>
               (case save_temp_image C frame0 of
                  Inl e \<Rightarrow> Inl e
                | Inr png \<Rightarrow>
                    Inr \<lparr> ui_image = png,
                          m_filtered_spectrum = map mf_filtered outs,
                          m_notch_mask = map (mask_image \<circ> mf_mask) outs \<rparr>)))"

subsection \<open>A library table for the examples\<close>

text \<open>
  The concrete examples below run the nodes with this excerpt of the libraries: the
  strings and values it knows are read and written as \<^verbatim>\<open>json\<close> reads and writes them
  (everything else is refused or written as \<^verbatim>\<open>null\<close>), the blur leaves a plane as
  it is, and the float32 arithmetic is exact, as it is on the samples of the examples.
\<close>

definition example_lib :: extern where
  \<open>example_lib =
     \<lparr> json_loads = (\<lambda>s. if s = ''[{"x": 0, "y": 0, "r": 1}]''
                         then Inr (JArr [JObj [(''x'', JInt 0), (''y'', JInt 0), (''r'', JInt 1)]])
                         else if s = ''[]'' then Inr (JArr [])
                         else if s = ''[1]'' then Inr (JArr [JInt 1])
                         else Inl JSONDecodeError),
       json_dumps = (\<lambda>j. if j = JArr [JObj [(''x'', JInt 0), (''y'', JInt 0), (''r'', JInt 1)]]
                         then ''[{"x": 0, "y": 0, "r": 1}]''
                         else if j = JArr [] then ''[]''
                         else ''null''),
       str_to_int = (\<lambda>s. Inl ValueError),
       gaussian_filter = (\<lambda>m s y x. m ! y ! x),
       f32_mul = Abs_fmul (\<lambda>a b. a * b),
       f32_add = (\<lambda>a b. a + b),
       f32_scalar_mul = Abs_fmul (\<lambda>a b. a * b) \<rparr>\<close>

section \<open>Properties\<close>

subsection \<open>Grids and shapes\<close>


lemma mk_grid_row: "y < H \<Longrightarrow> mk_grid H W f ! y = map (f y) [0..<W]"
  by (simp add: mk_grid_def)

lemma mk_grid_nth: "y < H \<Longrightarrow> x < W \<Longrightarrow> mk_grid H W f ! y ! x = f y x"
  by (simp add: mk_grid_def)

lemma mk_grid_cong:
  "(\<And>y x. y < H \<Longrightarrow> x < W \<Longrightarrow> f y x = g y x) \<Longrightarrow> mk_grid H W f = mk_grid H W g"
  by (simp add: mk_grid_def)



lemma upt_small: "[0..<Suc 0] = [0]" "[0..<2] = [0, 1]" "[0..<3] = [0, 1, 2]"
  by (simp_all add: eval_nat_numeral)

lemma has_shape_row: "has_shape H W C fr \<Longrightarrow> y < H \<Longrightarrow> length (fr ! y) = W"
  by (simp add: has_shape_def list_all_length)

lemma has_shape_px: "has_shape H W C fr \<Longrightarrow> y < H \<Longrightarrow> x < W \<Longrightarrow> length (fr ! y ! x) = C"
  by (simp add: has_shape_def list_all_length)

lemma clip01_range: "0 \<le> clip01 v \<and> clip01 v \<le> 1"
  by (simp add: clip01_def)

subsection \<open>The preview export\<close>

lemma unat_encode_sample: "unat (encode_sample v) = nat \<lfloor>clip01 v * 255\<rfloor>"
proof -
  have lo: "0 \<le> clip01 v * 255" and hi: "clip01 v * 255 \<le> 255"
    using clip01_range [of v] by simp_all
  have f0: "0 \<le> \<lfloor>clip01 v * 255\<rfloor>" using lo by simp
  have f1: "\<lfloor>clip01 v * 255\<rfloor> \<le> 255" using hi by (simp add: floor_le_iff)
  have "unat (word_of_int \<lfloor>clip01 v * 255\<rfloor> :: 8 word) = nat \<lfloor>clip01 v * 255\<rfloor>"
    using f0 f1 by (simp add: unat_eq_nat_uint uint_word_of_int take_bit_int_eq_self)
  then show ?thesis using lo by (simp add: encode_sample_def to_u8_def)
qed

lemma has_shape_nonempty:
  assumes "has_shape H W C fr" and "y < H" and "x < W"
  shows "concat fr \<noteq> []"
proof -
  have "fr ! y \<in> set fr" using assms by (simp add: has_shape_def)
  moreover have "fr ! y \<noteq> []" using assms has_shape_row [OF assms(1,2)] by auto
  ultimately show ?thesis by auto
qed

text \<open>
  C9 (as amended). The export encodes each sample \<open>v\<close> of the frame it is given (the first
  frame of the batch) to the 8-bit value \<open>\<lfloor>clip(v, 0, 1) \<times> 255\<rfloor>\<close>: the fraction is dropped,
  not rounded. A single-channel frame becomes three equal channels; of a frame with more
  channels the first three are kept, or the two there are.
\<close>

theorem save_temp_image_truncates:
  assumes "has_shape H W C fr" and "0 < C" and "y < H" and "x < W"
  shows "\<exists>png. save_temp_image C fr = Inr png \<and>
           map unat (png ! y ! x) =
             map (\<lambda>c. nat \<lfloor>clip01 (fr ! y ! x ! c) * 255\<rfloor>)
               (if C = 1 then [0, 0, 0] else [0..<min 3 C])"
proof -
  have ly: "y < length fr" using assms by (simp add: has_shape_def)
  have lx: "x < length (fr ! y)" using assms has_shape_row by metis
  have lc: "length (fr ! y ! x) = C" using assms has_shape_px by metis
  have ne: "concat fr \<noteq> []" by (rule has_shape_nonempty [OF assms(1,3,4)])
  show ?thesis
  proof (cases "C = 1")
    case True
    then have "save_temp_image C fr =
        Inr (map (map (\<lambda>px. [px ! 0, px ! 0, px ! 0])) (map (map (map encode_sample)) fr))"
      using ne by (simp add: save_temp_image_def Let_def)
    then show ?thesis using True ly lx lc by (simp add: unat_encode_sample)
  next
    case False
    then have "save_temp_image C fr = Inr (map (map (take 3)) (map (map (map encode_sample)) fr))"
      using assms(2) ne by (simp add: save_temp_image_def Let_def)
    moreover have "map unat (take 3 (map encode_sample (fr ! y ! x))) =
        map (\<lambda>c. nat \<lfloor>clip01 (fr ! y ! x ! c) * 255\<rfloor>) [0..<min 3 C]"
      using lc by (auto simp: list_eq_iff_nth_eq unat_encode_sample)
    ultimately show ?thesis using False ly lx by simp
  qed
qed

theorem save_temp_image_truncates_witness:
  "\<exists>png. save_temp_image 2 [[[3/8, 1/2]]] = Inr png \<and> map unat (png ! 0 ! 0) = [95, 127]"
proof -
  have "[0..<min 3 (2::nat)] = [0, 1]" by (simp add: upt_small)
  with save_temp_image_truncates [of 1 1 2 "[[[3/8, 1/2]]]" 0 0]
  show ?thesis by (simp add: has_shape_def clip01_def)
qed

text \<open>
  The sample \<open>3/8\<close> is encoded to 95, while \<open>round (3/8 \<times> 255) = round 95.625 = 96\<close>.
\<close>

theorem save_temp_image_round_counterexample:
  "save_temp_image 1 [[[3/8]]] = Inr [[[95, 95, 95]]] \<and> round (clip01 (3/8) * 255) = (96::int)"
  by (simp add: save_temp_image_def encode_sample_def to_u8_def clip01_def round_def)

subsection \<open>The mask builder\<close>

lemma wrap64_id: "- (2 ^ 63) \<le> v \<Longrightarrow> v < 2 ^ 63 \<Longrightarrow> wrap64 v = v"
  by (simp add: wrap64_def)

lemma wrap64_less: "wrap64 v < 2 ^ 63"
proof -
  have "(v + 2 ^ 63) mod 2 ^ 64 < (2 ^ 64 :: int)" by simp
  then show ?thesis by (simp add: wrap64_def)
qed

lemma abs_le_square: "\<bar>d\<bar> \<le> d\<^sup>2" for d :: int
proof (cases "d = 0")
  case True then show ?thesis by simp
next
  case False
  then have "1 \<le> \<bar>d\<bar>" by simp
  then have "\<bar>d\<bar> * 1 \<le> \<bar>d\<bar> * \<bar>d\<bar>" by (intro mult_left_mono) simp_all
  then show ?thesis by (simp add: power2_eq_square abs_mult_self_eq)
qed

lemma square_less_2_63:
  fixes d :: int
  assumes "d\<^sup>2 < 2 ^ 63"
  shows "- (2 ^ 63) \<le> d \<and> d < 2 ^ 63"
proof -
  have "\<bar>d\<bar> < 2 ^ 63" by (rule le_less_trans [OF abs_le_square assms])
  then show ?thesis by (simp add: abs_less_iff)
qed


lemma in_disk64_plain:
  fixes a b :: int
  assumes "a = int x - c" and "b = int y - r"
    and "- (2 ^ 63) \<le> a" "a < 2 ^ 63" "- (2 ^ 63) \<le> b" "b < 2 ^ 63"
    and "a\<^sup>2 + b\<^sup>2 < 2 ^ 63"
  shows "in_disk64 r c radius y x \<longleftrightarrow> a\<^sup>2 + b\<^sup>2 \<le> radius\<^sup>2"
proof -
  have lo: "- (2 ^ 63) \<le> d" if "0 \<le> d" for d :: int
    by (rule order_trans [OF _ that]) simp
  have a2: "a\<^sup>2 < 2 ^ 63" by (rule le_less_trans [OF _ assms(7)]) simp
  have b2: "b\<^sup>2 < 2 ^ 63" by (rule le_less_trans [OF _ assms(7)]) simp
  have 1: "wrap64 a = a" "wrap64 b = b" using assms by (simp_all add: wrap64_id)
  have 2: "wrap64 (a\<^sup>2) = a\<^sup>2" "wrap64 (b\<^sup>2) = b\<^sup>2"
    by (rule wrap64_id [OF lo a2], simp) (rule wrap64_id [OF lo b2], simp)
  have 3: "wrap64 (a\<^sup>2 + b\<^sup>2) = a\<^sup>2 + b\<^sup>2"
    by (rule wrap64_id [OF lo assms(7)]) simp
  show ?thesis unfolding in_disk64_def assms(1,2) [symmetric] 1 2 3 ..
qed

lemma in_disk64_superset:
  assumes "(int x - c)\<^sup>2 + (int y - r)\<^sup>2 \<le> radius\<^sup>2"
  shows "in_disk64 r c radius y x"
proof (cases "radius\<^sup>2 < 2 ^ 63")
  case True
  define a b where "a = int x - c" and "b = int y - r"
  have le: "a\<^sup>2 + b\<^sup>2 \<le> radius\<^sup>2" using assms by (simp add: a_def b_def)
  have pa: "0 \<le> a\<^sup>2" and pb: "0 \<le> b\<^sup>2" by simp_all
  have s: "a\<^sup>2 + b\<^sup>2 < 2 ^ 63" using le True by simp
  have "a\<^sup>2 < 2 ^ 63" "b\<^sup>2 < 2 ^ 63"
    by (rule le_less_trans [OF _ s], simp) (rule le_less_trans [OF _ s], simp)
  then have "- (2 ^ 63) \<le> a" "a < 2 ^ 63" "- (2 ^ 63) \<le> b" "b < 2 ^ 63"
    using square_less_2_63 by blast+
  from in_disk64_plain [OF a_def b_def this s] le show ?thesis by simp
next
  case False
  then show ?thesis
    unfolding in_disk64_def
    using wrap64_less [of "wrap64 ((wrap64 (int x - c))\<^sup>2) + wrap64 ((wrap64 (int y - r))\<^sup>2)"]
    by simp
qed

lemma in_disk64_exact:
  assumes "\<bar>int x - c\<bar> < 2 ^ 31" and "\<bar>int y - r\<bar> < 2 ^ 31"
  shows "in_disk64 r c radius y x \<longleftrightarrow> (int x - c)\<^sup>2 + (int y - r)\<^sup>2 \<le> radius\<^sup>2"
proof -
  define a b where "a = int x - c" and "b = int y - r"
  have sq: "d\<^sup>2 < 2 ^ 62" if "\<bar>d\<bar> < 2 ^ 31" for d :: int
  proof -
    have "\<bar>d\<bar> * \<bar>d\<bar> < 2 ^ 31 * 2 ^ 31" using that by (intro mult_strict_mono) simp_all
    then show ?thesis by (simp add: power2_eq_square abs_mult_self_eq)
  qed
  have ab: "\<bar>a\<bar> < 2 ^ 31" "\<bar>b\<bar> < 2 ^ 31" using assms by (simp_all add: a_def b_def)
  have a2: "a\<^sup>2 < 2 ^ 62" and b2: "b\<^sup>2 < 2 ^ 62" using ab sq by blast+
  have s: "a\<^sup>2 + b\<^sup>2 < 2 ^ 63" using a2 b2 by simp
  have r: "- (2 ^ 63) \<le> a" "a < 2 ^ 63" "- (2 ^ 63) \<le> b" "b < 2 ^ 63" using ab by simp_all
  from in_disk64_plain [OF a_def b_def r s] show ?thesis by (simp add: a_def b_def)
qed

lemma paint_disk_grid:
  "paint_disk H W rad (mk_grid H W f) p =
     mk_grid H W (\<lambda>y x. if in_disk64 (fst p) (snd p) rad y x then 1 else f y x)"
  unfolding paint_disk_def by (rule mk_grid_cong) (simp add: mk_grid_nth)

lemma foldl_paint_disk:
  "foldl (paint_disk H W rad) (mk_grid H W f) peaks =
     mk_grid H W (\<lambda>y x. if \<exists>p\<in>set peaks. in_disk64 (fst p) (snd p) rad y x then 1 else f y x)"
proof (induction peaks arbitrary: f)
  case Nil
  show ?case by simp
next
  case (Cons p ps)
  show ?case
    unfolding foldl_Cons paint_disk_grid Cons.IH
    by (rule mk_grid_cong) auto
qed

lemma foldl_paint_circle:
  "foldl (paint_circle H W) (mk_grid H W f) circles =
     mk_grid H W (\<lambda>y x. if \<exists>c\<in>set circles. in_disk64 (fst (fst c)) (snd (fst c)) (snd c) y x
                         then 1 else f y x)"
proof (induction circles arbitrary: f)
  case Nil
  show ?case by simp
next
  case (Cons c cs)
  show ?case
    unfolding foldl_Cons paint_circle_def paint_disk_grid
    unfolding paint_circle_def [symmetric] Cons.IH
    by (rule mk_grid_cong) auto
qed

lemma binary_mask_eq:
  "foldl (paint_disk H W radius) (mk_grid H W (\<lambda>y x. 0)) peaks =
     mk_grid H W (\<lambda>y x. if \<exists>p\<in>set peaks. in_disk64 (fst p) (snd p) radius y x then 1 else 0)"
  by (rule foldl_paint_disk)




lemma manual_mask_eq:
  "manual_mask H W circles protect_dc =
     mk_grid H W (\<lambda>y x.
       if (protect_dc > 0 \<and> in_disk64 (int H div 2) (int W div 2) protect_dc y x)
          \<or> (\<exists>c\<in>set circles. in_disk64 (fst (fst c)) (snd (fst c)) (snd c) y x)
       then 1 else 0)"
proof (cases "protect_dc > 0")
  case True
  then show ?thesis
    unfolding manual_mask_def Let_def foldl_paint_circle paint_disk_grid
    by (simp, intro mk_grid_cong) auto
next
  case False
  then show ?thesis
    unfolding manual_mask_def Let_def foldl_paint_circle
    by simp
qed





subsection \<open>The mask of the manual node\<close>

lemma point_peak_json: "point_peak lib (peak_json notch_radius p) = Inr p"
  by (simp add: point_peak_def get_int_def peak_json_def)

lemma point_radius_json: "get_int lib ''r'' 8 (peak_json notch_radius p) = Inr notch_radius"
  by (simp add: get_int_def peak_json_def)

lemma for_frames_map_Inr:
  "(\<And>x. f (g x) = Inr (h x)) \<Longrightarrow> for_frames f (map g xs) = Inr (map h xs)"
  by (induction xs) simp_all

text \<open>Points written as objects with integer \<open>x\<close>, \<open>y\<close> and \<open>r\<close> are read as their circles.\<close>

lemma point_circles_points:
  "point_circles lib (map (\<lambda>c. peak_json (snd c) (fst c)) circles) = Inr circles"
proof -
  have 1: "for_frames (point_peak lib) (map (\<lambda>c. peak_json (snd c) (fst c)) circles)
             = Inr (map fst circles)"
    by (rule for_frames_map_Inr) (rule point_peak_json)
  have 2: "for_frames (get_int lib ''r'' 8) (map (\<lambda>c. peak_json (snd c) (fst c)) circles)
             = Inr (map snd circles)"
    by (rule for_frames_map_Inr) (rule point_radius_json)
  show ?thesis by (simp add: point_circles_def 1 2 zip_map_fst_snd)
qed

lemma manual_mask_nth:
  assumes "y < H" and "x < W"
  shows "manual_mask H W circles protect_dc ! y ! x =
     (if (protect_dc > 0 \<and> in_disk64 (int H div 2) (int W div 2) protect_dc y x)
          \<or> (\<exists>c\<in>set circles. in_disk64 (fst (fst c)) (snd (fst c)) (snd c) y x)
       then 1 else 0)"
  using assms by (simp add: manual_mask_eq mk_grid_nth)

text \<open>
  C6. In manual mode with \<open>protect_dc > 0\<close>, for points given as objects with integer
  \<open>x\<close>, \<open>y\<close> and \<open>r\<close>, the mask of a frame before feathering is 1 at every pixel of the
  disk of radius \<open>protect_dc\<close> around \<open>(H div 2, W div 2)\<close> and at every pixel of a point's
  circle, also when there are no points; every entry is 0 or 1, and the entries that are 1
  are exactly those pixels where no int64 square wraps (the pixel is less than \<open>2\<^sup>3\<^sup>1\<close>
  rows and columns away from the centre and from every point).
\<close>

theorem manual_frame_dc_disk:
  assumes "protect_dc > 0"
    and "points = map (\<lambda>c. peak_json (snd c) (fst c)) circles"
  shows "\<exists>out. manual_frame lib H W points feather protect_dc fr = Inr out \<and>
           mf_mask out = feather_mask lib H W feather (manual_mask H W circles protect_dc) \<and>
           (\<forall>y<H. \<forall>x<W.
              (manual_mask H W circles protect_dc ! y ! x = 0 \<or>
               manual_mask H W circles protect_dc ! y ! x = 1) \<and>
              ((int x - int W div 2)\<^sup>2 + (int y - int H div 2)\<^sup>2 \<le> protect_dc\<^sup>2
                  \<or> (\<exists>c\<in>set circles. (int x - snd (fst c))\<^sup>2 + (int y - fst (fst c))\<^sup>2 \<le> (snd c)\<^sup>2)
                \<longrightarrow> manual_mask H W circles protect_dc ! y ! x = 1) \<and>
              (\<bar>int x - int W div 2\<bar> < 2 ^ 31 \<and> \<bar>int y - int H div 2\<bar> < 2 ^ 31 \<and>
               (\<forall>c\<in>set circles. \<bar>int x - snd (fst c)\<bar> < 2 ^ 31 \<and> \<bar>int y - fst (fst c)\<bar> < 2 ^ 31)
                \<longrightarrow> manual_mask H W circles protect_dc ! y ! x =
                  (if (int x - int W div 2)\<^sup>2 + (int y - int H div 2)\<^sup>2 \<le> protect_dc\<^sup>2
                      \<or> (\<exists>c\<in>set circles.
                            (int x - snd (fst c))\<^sup>2 + (int y - fst (fst c))\<^sup>2 \<le> (snd c)\<^sup>2)
                   then 1 else 0)))"
proof -
  let ?m = "manual_mask H W circles protect_dc"
  have pc: "point_circles lib points = Inr circles"
    unfolding assms(2) by (rule point_circles_points)
  have o: "manual_frame lib H W points feather protect_dc fr =
      Inr \<lparr> mf_filtered = apply_mask fr (feather_mask lib H W feather ?m),
            mf_mask = feather_mask lib H W feather ?m \<rparr>"
    by (simp add: manual_frame_def pc Let_def)
  have bin: "?m ! y ! x = 0 \<or> ?m ! y ! x = 1" if "y < H" "x < W" for y x
    by (simp add: manual_mask_nth [OF that])
  have sup: "?m ! y ! x = 1"
    if "y < H" "x < W"
      "(int x - int W div 2)\<^sup>2 + (int y - int H div 2)\<^sup>2 \<le> protect_dc\<^sup>2
         \<or> (\<exists>c\<in>set circles. (int x - snd (fst c))\<^sup>2 + (int y - fst (fst c))\<^sup>2 \<le> (snd c)\<^sup>2)"
    for y x
  proof -
    from that(3) have "in_disk64 (int H div 2) (int W div 2) protect_dc y x
        \<or> (\<exists>c\<in>set circles. in_disk64 (fst (fst c)) (snd (fst c)) (snd c) y x)"
      using in_disk64_superset by blast
    then show ?thesis using assms(1) by (auto simp: manual_mask_nth [OF that(1,2)])
  qed
  have ex: "?m ! y ! x =
      (if (int x - int W div 2)\<^sup>2 + (int y - int H div 2)\<^sup>2 \<le> protect_dc\<^sup>2
          \<or> (\<exists>c\<in>set circles. (int x - snd (fst c))\<^sup>2 + (int y - fst (fst c))\<^sup>2 \<le> (snd c)\<^sup>2)
       then 1 else 0)"
    if "y < H" "x < W"
      "\<bar>int x - int W div 2\<bar> < 2 ^ 31 \<and> \<bar>int y - int H div 2\<bar> < 2 ^ 31 \<and>
       (\<forall>c\<in>set circles. \<bar>int x - snd (fst c)\<bar> < 2 ^ 31 \<and> \<bar>int y - fst (fst c)\<bar> < 2 ^ 31)"
    for y x
  proof -
    have d: "in_disk64 (int H div 2) (int W div 2) protect_dc y x \<longleftrightarrow>
        (int x - int W div 2)\<^sup>2 + (int y - int H div 2)\<^sup>2 \<le> protect_dc\<^sup>2"
      using that(3) by (intro in_disk64_exact) simp_all
    have c: "(\<exists>c\<in>set circles. in_disk64 (fst (fst c)) (snd (fst c)) (snd c) y x) \<longleftrightarrow>
        (\<exists>c\<in>set circles. (int x - snd (fst c))\<^sup>2 + (int y - fst (fst c))\<^sup>2 \<le> (snd c)\<^sup>2)"
      using that(3) in_disk64_exact by blast
    show ?thesis unfolding manual_mask_nth [OF that(1,2)] d c using assms(1) by simp
  qed
  show ?thesis
    unfolding o using bin sup ex by (intro exI [of _ "\<lparr> mf_filtered = apply_mask fr (feather_mask lib H W feather ?m), mf_mask = feather_mask lib H W feather ?m \<rparr>"]) simp
qed

theorem manual_frame_dc_disk_witness:
  "\<exists>out. manual_frame example_lib 3 3
            [JObj [(''x'', JInt 0), (''y'', JInt 0), (''r'', JInt 0)]] 0 1
            [[[1],[1],[1]],[[1],[1],[1]],[[1],[1],[1]]] = Inr out \<and>
     mf_mask out ! 1 ! 1 = 1 \<and> mf_mask out ! 0 ! 1 = 1 \<and> mf_mask out ! 0 ! 0 = 1 \<and>
     mf_mask out ! 0 ! 2 = 0"
proof -
  let ?fr = "[[[1],[1],[1]],[[1],[1],[1]],[[1],[1],[1::real]]]"
  let ?cs = "[((0, 0), 0)] :: ((int \<times> int) \<times> int) list"
  have p: "[JObj [(''x'', JInt 0), (''y'', JInt 0), (''r'', JInt 0)]]
             = map (\<lambda>c. peak_json (snd c) (fst c)) ?cs"
    by (simp add: peak_json_def)
  from manual_frame_dc_disk [OF _ p, of 1 example_lib 3 3 0 ?fr]
  obtain out where o: "manual_frame example_lib 3 3
            [JObj [(''x'', JInt 0), (''y'', JInt 0), (''r'', JInt 0)]] 0 1 ?fr = Inr out"
    and m: "mf_mask out = feather_mask example_lib 3 3 0 (manual_mask 3 3 ?cs 1)"
    and v: "\<forall>y<3. \<forall>x<3.
              (\<bar>int x - int 3 div 2\<bar> < 2 ^ 31 \<and> \<bar>int y - int 3 div 2\<bar> < 2 ^ 31 \<and>
               (\<forall>c\<in>set ?cs. \<bar>int x - snd (fst c)\<bar> < 2 ^ 31 \<and> \<bar>int y - fst (fst c)\<bar> < 2 ^ 31)
                \<longrightarrow> manual_mask 3 3 ?cs 1 ! y ! x =
                  (if (int x - int 3 div 2)\<^sup>2 + (int y - int 3 div 2)\<^sup>2 \<le> 1\<^sup>2
                      \<or> (\<exists>c\<in>set ?cs.
                            (int x - snd (fst c))\<^sup>2 + (int y - fst (fst c))\<^sup>2 \<le> (snd c)\<^sup>2)
                   then 1 else 0))"
    by auto
  have "mf_mask out ! 1 ! 1 = 1" "mf_mask out ! 0 ! 1 = 1" "mf_mask out ! 0 ! 0 = 1"
    "mf_mask out ! 0 ! 2 = 0"
    using v [rule_format, of 1 1] v [rule_format, of 0 1] v [rule_format, of 0 0]
      v [rule_format, of 0 2]
    by (simp_all add: m feather_mask_def)
  with o show ?thesis by blast
qed

subsection \<open>Mask application in the two nodes\<close>

lemma for_frames_Inr:
  "for_frames f xs = Inr ys \<Longrightarrow>
     length ys = length xs \<and> (\<forall>i<length xs. f (xs ! i) = Inr (ys ! i))"
proof (induction xs arbitrary: ys)
  case Nil
  then show ?case by simp
next
  case (Cons x xs)
  from Cons.prems obtain y ys' where fx: "f x = Inr y" and r: "for_frames f xs = Inr ys'"
    and ys: "ys = y # ys'"
    by (auto split: sum.splits)
  from Cons.IH [OF r] fx ys show ?case
    by (auto simp: nth_Cons')
qed

lemma shape4_batch_shape:
  assumes "batch_shape B H W C img" and "b < B" and "y < H" and "x < W"
  shows "shape4 img = (B, H, W, C)"
proof -
  from assms obtain f fs where img: "img = f # fs" and f: "has_shape H W C f"
    by (cases img) (auto simp: batch_shape_def)
  from f assms obtain r rs where fr: "f = r # rs" and r: "length r = W" "list_all (\<lambda>px. length px = C) r"
    by (cases f) (auto simp: has_shape_def)
  from r assms obtain p ps where rp: "r = p # ps" and "length p = C"
    by (cases r) auto
  then show ?thesis using img fr r f assms
    by (auto simp: shape4_def batch_shape_def has_shape_def)
qed






lemma auto_frame_Inr:
  assumes "auto_frame lib H W C threshold_rel min_distance notch_radius protect_dc feather fr = Inr out"
  shows "\<exists>gray peaks. to_gray lib C fr = Inr gray \<and>
           detect_peaks lib H W gray threshold_rel min_distance protect_dc = Inr peaks \<and>
           af_peaks out = peaks \<and>
           af_mask out = build_circular_mask lib H W peaks notch_radius feather \<and>
           af_mask_img out = mask_image (build_circular_mask lib H W peaks notch_radius feather) \<and>
           af_filtered out = apply_mask fr (build_circular_mask lib H W peaks notch_radius feather) \<and>
           af_preview out = annotate_preview fr peaks notch_radius protect_dc H W C"
  using assms by (auto simp: auto_frame_def Let_def split: sum.splits if_splits)

lemma manual_frame_Inr:
  assumes "manual_frame lib H W points feather protect_dc fr = Inr out"
  shows "\<exists>circles. point_circles lib points = Inr circles \<and>
           mf_mask out = feather_mask lib H W feather (manual_mask H W circles protect_dc) \<and>
           mf_filtered out =
             apply_mask fr (feather_mask lib H W feather (manual_mask H W circles protect_dc))"
  using assms by (auto simp: manual_frame_def Let_def split: sum.splits)


subsection \<open>Peak detection\<close>

lemma fmul_zero: "Rep_fmul m a 0 = 0"
  using Rep_fmul [of m] by simp

lemma example_mul:
  "Rep_fmul (f32_scalar_mul example_lib) a b = a * b"
  "Rep_fmul (f32_mul example_lib) a b = a * b"
  by (simp_all add: example_lib_def Abs_fmul_inverse)

lemma reflect_index_less: "0 < n \<Longrightarrow> reflect_index n j < n"
proof -
  assume n: "0 < n"
  define m where "m = j mod (2 * int n)"
  have "0 \<le> m" "m < 2 * int n" using n by (simp_all add: m_def)
  then show ?thesis unfolding reflect_index_def Let_def m_def [symmetric] by auto
qed

lemma reflect_index_inside: "0 \<le> j \<Longrightarrow> j < int n \<Longrightarrow> reflect_index n j = nat j"
  by (simp add: reflect_index_def)

lemma reflect_index_close:
  assumes "i < n"
  shows "\<bar>int (reflect_index n j) - int i\<bar> \<le> \<bar>j - int i\<bar>"
proof -
  define N where "N = int n"
  define m where "m = j mod (2 * N)"
  define q where "q = j div (2 * N)"
  have N: "0 < N" "int i < N" using assms by (simp_all add: N_def)
  have m: "0 \<le> m" "m < 2 * N" using N by (simp_all add: m_def)
  have j: "j = 2 * N * q + m" by (simp add: m_def q_def)
  have r: "int (reflect_index n j) = (if m < N then m else 2 * N - 1 - m)"
    unfolding reflect_index_def Let_def N_def [symmetric] m_def [symmetric] using m by auto
  consider "q = 0" | "1 \<le> q" | "q \<le> - 1" by linarith
  then show ?thesis
  proof cases
    case 1
    then have "j = m" using j by simp
    then show ?thesis using r m N by (auto simp: abs_if)
  next
    case 2
    then have "2 * N * 1 \<le> 2 * N * q" using N by (intro mult_left_mono) simp_all
    then have "2 * N + m \<le> j" using j by simp
    then show ?thesis using r m N by (auto simp: abs_if)
  next
    case 3
    then have "2 * N * q \<le> 2 * N * (- 1)" using N by (intro mult_left_mono) simp_all
    then have "j \<le> m - 2 * N" using j by simp
    then show ?thesis using r m N by (auto simp: abs_if)
  qed
qed

lemma reflect_window:
  assumes "i < n" and "0 \<le> d"
  shows "(\<lambda>k. reflect_index n (int i + k)) ` {- d .. d} = {j. j < n \<and> \<bar>int j - int i\<bar> \<le> d}"
proof (intro equalityI subsetI)
  fix j assume "j \<in> (\<lambda>k. reflect_index n (int i + k)) ` {- d .. d}"
  then obtain k where k: "- d \<le> k" "k \<le> d" and j: "j = reflect_index n (int i + k)" by auto
  have "j < n" using assms j reflect_index_less [of n] by simp
  moreover have "\<bar>int j - int i\<bar> \<le> \<bar>(int i + k) - int i\<bar>"
    unfolding j by (rule reflect_index_close [OF assms(1)])
  ultimately show "j \<in> {j. j < n \<and> \<bar>int j - int i\<bar> \<le> d}" using k by simp
next
  fix j assume "j \<in> {j. j < n \<and> \<bar>int j - int i\<bar> \<le> d}"
  then have a: "j < n" "\<bar>int j - int i\<bar> \<le> d" by simp_all
  have "reflect_index n (int i + (int j - int i)) = j"
    using a reflect_index_inside [of "int j" n] by simp
  moreover have "int j - int i \<in> {- d .. d}" using a by auto
  ultimately show "j \<in> (\<lambda>k. reflect_index n (int i + k)) ` {- d .. d}"
    by (metis (mono_tags, lifting) image_eqI)
qed

lemma set_window: "set (window sz) = {- (sz div 2) .. sz div 2}"
  by (simp add: window_def)

lemma maximum_filter_nth:
  assumes "y < H" and "x < W" and "0 \<le> sz"
  shows "maximum_filter H W g sz ! y ! x =
           Max {g ! y' ! x' | y' x'. y' < H \<and> x' < W \<and>
                  \<bar>int y' - int y\<bar> \<le> sz div 2 \<and> \<bar>int x' - int x\<bar> \<le> sz div 2}"
proof -
  let ?d = "sz div 2"
  have d: "0 \<le> ?d" using assms by simp
  let ?RY = "(\<lambda>k. reflect_index H (int y + k)) ` {- ?d .. ?d}"
  let ?RX = "(\<lambda>k. reflect_index W (int x + k)) ` {- ?d .. ?d}"
  have "set (concat (map (\<lambda>dy. map (\<lambda>dx.
            g ! reflect_index H (int y + dy) ! reflect_index W (int x + dx))
            (window sz)) (window sz)))
        = {g ! y' ! x' | y' x'. y' \<in> ?RY \<and> x' \<in> ?RX}"
    by (auto simp: set_window)
  also have "\<dots> = {g ! y' ! x' | y' x'. y' < H \<and> x' < W \<and>
                  \<bar>int y' - int y\<bar> \<le> ?d \<and> \<bar>int x' - int x\<bar> \<le> ?d}"
    unfolding reflect_window [OF assms(1) d] reflect_window [OF assms(2) d] by auto
  finally show ?thesis using assms by (simp add: maximum_filter_def mk_grid_nth)
qed

lemma set_argwhere:
  "(r, c) \<in> set (argwhere H W P) \<longleftrightarrow> (\<exists>y<H. \<exists>x<W. r = int y \<and> c = int x \<and> P y x)"
  by (auto simp: argwhere_def)

lemma argwhere_cong:
  "(\<And>y x. y < H \<Longrightarrow> x < W \<Longrightarrow> P y x = Q y x) \<Longrightarrow> argwhere H W P = argwhere H W Q"
  unfolding argwhere_def by (intro arg_cong [where f = concat] map_cong filter_cong) auto


lemma to_gray_shape:
  assumes "to_gray lib C fr = Inr gray" and "has_shape H W C fr"
  shows "length gray = H \<and> (\<forall>row\<in>set gray. length row = W)"
  using assms by (auto simp: to_gray_def has_shape_def list_all_iff split: if_splits)

lemma amax_Inr:
  assumes "length gray = H" and "\<forall>row\<in>set gray. length row = W" and "0 < H" and "0 < W"
  shows "amax gray = Inr (Max (set (concat gray)))"
proof -
  from assms obtain row rows where g: "gray = row # rows" by (cases gray) auto
  with assms have "length row = W" by simp
  with assms obtain v vs where "row = v # vs" by (cases row) auto
  with g show ?thesis by (simp add: amax_def)
qed

lemma odd_side: "\<bar>k\<bar> \<le> max 3 (md * 2 + 1) div 2 \<longleftrightarrow> 2 * \<bar>k\<bar> < max 3 (md * 2 + 1)" for k md :: int
  by (auto simp: max_def)

lemma detect_peaks_Inr:
  assumes "length gray = H" and "\<forall>row\<in>set gray. length row = W" and "0 < H" and "0 < W"
  shows "detect_peaks lib H W gray threshold_rel min_distance protect_dc =
           Inr (argwhere H W
             (is_peak lib H W gray (maximum_filter H W gray (max 3 (min_distance * 2 + 1)))
                threshold_rel (Max (set (concat gray))) protect_dc))"
  by (simp add: detect_peaks_def Let_def amax_Inr [OF assms])

text \<open>
  C2. A pixel \<open>(row, col)\<close> is among the peaks of a frame exactly when its grayscale value
  equals the maximum over the pixels of the frame within the square window of side
  \<open>max(3, 2 * min_distance + 1)\<close> centred on it, is at least \<open>threshold_rel\<close> times the
  maximum of the whole grayscale array (the float32 product, as numpy computes it) and,
  when \<open>protect_dc > 0\<close>, its squared distance to \<open>(H div 2, W div 2)\<close> exceeds
  \<open>protect_dc\<^sup>2\<close>.
\<close>

theorem auto_frame_peaks_iff:
  assumes "has_shape H W C fr" and "0 < H" and "0 < W"
    and "auto_frame lib H W C threshold_rel min_distance notch_radius protect_dc feather fr = Inr out"
  shows "\<exists>gray. to_gray lib C fr = Inr gray \<and>
           (\<forall>r c. (r, c) \<in> set (af_peaks out) \<longleftrightarrow>
              (\<exists>y<H. \<exists>x<W. r = int y \<and> c = int x \<and>
                 gray ! y ! x =
                   Max {gray ! y' ! x' | y' x'. y' < H \<and> x' < W \<and>
                          2 * \<bar>int y' - int y\<bar> < max 3 (2 * min_distance + 1) \<and>
                          2 * \<bar>int x' - int x\<bar> < max 3 (2 * min_distance + 1)} \<and>
                 gray ! y ! x \<ge> Rep_fmul (f32_scalar_mul lib) threshold_rel (Max (set (concat gray))) \<and>
                 (protect_dc > 0 \<longrightarrow>
                    (int x - int W div 2)\<^sup>2 + (int y - int H div 2)\<^sup>2 > protect_dc\<^sup>2)))"
proof -
  from auto_frame_Inr [OF assms(4)] obtain gray peaks where
    g: "to_gray lib C fr = Inr gray"
    and d: "detect_peaks lib H W gray threshold_rel min_distance protect_dc = Inr peaks"
    and p: "af_peaks out = peaks"
    by blast
  have sh: "length gray = H" "\<forall>row\<in>set gray. length row = W"
    using to_gray_shape [OF g assms(1)] by simp_all
  let ?s = "max 3 (min_distance * 2 + 1)"
  let ?nb = "maximum_filter H W gray ?s"
  have peaks: "peaks = argwhere H W
      (is_peak lib H W gray ?nb threshold_rel (Max (set (concat gray))) protect_dc)"
    using d by (simp add: detect_peaks_Inr [OF sh assms(2,3)])
  have nb: "?nb ! y ! x = Max {gray ! y' ! x' | y' x'. y' < H \<and> x' < W \<and>
                          2 * \<bar>int y' - int y\<bar> < max 3 (2 * min_distance + 1) \<and>
                          2 * \<bar>int x' - int x\<bar> < max 3 (2 * min_distance + 1)}"
    if "y < H" "x < W" for y x
    using maximum_filter_nth [OF that, of ?s gray]
    by (simp add: odd_side mult.commute)
  have "(r, c) \<in> set peaks \<longleftrightarrow>
              (\<exists>y<H. \<exists>x<W. r = int y \<and> c = int x \<and>
                 gray ! y ! x =
                   Max {gray ! y' ! x' | y' x'. y' < H \<and> x' < W \<and>
                          2 * \<bar>int y' - int y\<bar> < max 3 (2 * min_distance + 1) \<and>
                          2 * \<bar>int x' - int x\<bar> < max 3 (2 * min_distance + 1)} \<and>
                 gray ! y ! x \<ge> Rep_fmul (f32_scalar_mul lib) threshold_rel (Max (set (concat gray))) \<and>
                 (protect_dc > 0 \<longrightarrow>
                    (int x - int W div 2)\<^sup>2 + (int y - int H div 2)\<^sup>2 > protect_dc\<^sup>2))" for r c
    unfolding peaks set_argwhere is_peak_def in_disk_def
    using nb by (auto simp: not_le)
  with g p show ?thesis by blast
qed

lemma to_gray_Inr: "0 < C \<Longrightarrow> \<exists>gray. to_gray lib C fr = Inr gray"
  by (simp add: to_gray_def)

lemma auto_frame_total:
  assumes "has_shape H W C fr" and "0 < H" and "0 < W" and "0 < C"
  shows "\<exists>out. auto_frame lib H W C threshold_rel min_distance notch_radius protect_dc feather fr
           = Inr out"
proof -
  from to_gray_Inr [OF assms(4)] obtain gray where g: "to_gray lib C fr = Inr gray" by blast
  have sh: "length gray = H" "\<forall>row\<in>set gray. length row = W"
    using to_gray_shape [OF g assms(1)] by simp_all
  show ?thesis
    using assms(2,3) by (simp add: auto_frame_def g detect_peaks_Inr [OF sh assms(2,3)] Let_def)
qed

lemma zero_plane_nth:
  assumes "length gray = H" and "\<forall>row\<in>set gray. \<forall>v\<in>set row. v = (0::real)"
    and "\<forall>row\<in>set gray. length row = W" and "y < H" and "x < W"
  shows "gray ! y ! x = 0"
proof -
  have "gray ! y \<in> set gray" using assms by simp
  moreover from this have "gray ! y ! x \<in> set (gray ! y)" using assms by simp
  ultimately show ?thesis using assms by blast
qed

lemma detect_peaks_zero:
  assumes "length gray = H" and "\<forall>row\<in>set gray. length row = W" and "0 < H" and "0 < W"
    and "\<forall>row\<in>set gray. \<forall>v\<in>set row. v = 0"
  shows "detect_peaks lib H W gray threshold_rel min_distance protect_dc =
           Inr (argwhere H W
             (\<lambda>y x. \<not> (protect_dc > 0 \<and> in_disk (int H div 2) (int W div 2) protect_dc y x)))"
proof -
  have z: "gray ! y ! x = 0" if "y < H" "x < W" for y x
    using zero_plane_nth [OF assms(1,5,2) that] .
  let ?s = "max 3 (min_distance * 2 + 1)"
  let ?nb = "maximum_filter H W gray ?s"
  have nb: "?nb ! y ! x = 0" if "y < H" "x < W" for y x
  proof -
    have "{gray ! y' ! x' | y' x'. y' < H \<and> x' < W \<and>
            \<bar>int y' - int y\<bar> \<le> ?s div 2 \<and> \<bar>int x' - int x\<bar> \<le> ?s div 2} = {0}"
    proof (intro equalityI subsetI)
      fix v assume "v \<in> {gray ! y' ! x' | y' x'. y' < H \<and> x' < W \<and>
            \<bar>int y' - int y\<bar> \<le> ?s div 2 \<and> \<bar>int x' - int x\<bar> \<le> ?s div 2}"
      then show "v \<in> {0}" using z by auto
    next
      fix v :: real assume "v \<in> {0}"
      then have "v = gray ! y ! x" using z that by simp
      moreover have "\<bar>int y - int y\<bar> \<le> ?s div 2" "\<bar>int x - int x\<bar> \<le> ?s div 2" by simp_all
      ultimately show "v \<in> {gray ! y' ! x' | y' x'. y' < H \<and> x' < W \<and>
            \<bar>int y' - int y\<bar> \<le> ?s div 2 \<and> \<bar>int x' - int x\<bar> \<le> ?s div 2}"
        using that by blast
    qed
    then show ?thesis using maximum_filter_nth [OF that, of ?s gray] by simp
  qed
  have gm: "Max (set (concat gray)) = 0"
  proof -
    from assms(1,3) obtain row rows where g: "gray = row # rows" by (cases gray) auto
    then obtain v vs where "row = v # vs" using assms(2,4) by (cases row) auto
    then have vin: "v \<in> set (concat gray)" using g by simp
    have all0: "\<forall>u\<in>set (concat gray). u = 0" using assms(5) by auto
    from vin all0 have "v = 0" by blast
    with vin have "0 \<in> set (concat gray)" by blast
    moreover have "set (concat gray) \<subseteq> {0}" using all0 by blast
    ultimately have "set (concat gray) = {0}" by blast
    then show ?thesis by simp
  qed
  have pk: "is_peak lib H W gray ?nb threshold_rel (Max (set (concat gray))) protect_dc y x
      = (\<not> (protect_dc > 0 \<and> in_disk (int H div 2) (int W div 2) protect_dc y x))"
    if "y < H" "x < W" for y x
    unfolding is_peak_def gm z [OF that] nb [OF that] by (simp add: fmul_zero)
  show ?thesis
    unfolding detect_peaks_Inr [OF assms(1-4)]
    by (rule arg_cong [where f = Inr], rule argwhere_cong) (rule pk)
qed

text \<open>
  C10. When the grayscale reduction of a frame is zero everywhere, the automatic node
  returns for it every pixel outside the DC-protection disk as a peak (every pixel when
  \<open>protect_dc = 0\<close>): each value equals its neighbourhood maximum, and the threshold test
  is \<open>0 \<ge> threshold_rel \<times> 0\<close>.
\<close>

theorem auto_frame_zero_gray:
  assumes "has_shape H W C fr" and "0 < H" and "0 < W"
    and "to_gray lib C fr = Inr gray"
    and "\<forall>row\<in>set gray. \<forall>v\<in>set row. v = 0"
  shows "\<exists>out. auto_frame lib H W C threshold_rel min_distance notch_radius protect_dc feather fr
             = Inr out \<and>
           (\<forall>r c. (r, c) \<in> set (af_peaks out) \<longleftrightarrow>
              (\<exists>y<H. \<exists>x<W. r = int y \<and> c = int x \<and>
                 (protect_dc > 0 \<longrightarrow>
                    (int x - int W div 2)\<^sup>2 + (int y - int H div 2)\<^sup>2 > protect_dc\<^sup>2)))"
proof -
  have sh: "length gray = H" "\<forall>row\<in>set gray. length row = W"
    using to_gray_shape [OF assms(4,1)] by simp_all
  obtain out where o: "auto_frame lib H W C threshold_rel min_distance notch_radius protect_dc feather fr = Inr out"
  proof -
    have "0 < C" using assms(4) by (cases "C = 0") (simp_all add: to_gray_def)
    from auto_frame_total [OF assms(1-3) this] show ?thesis using that by blast
  qed
  from auto_frame_Inr [OF o] assms(4)
  have "af_peaks out = argwhere H W
      (\<lambda>y x. \<not> (protect_dc > 0 \<and> in_disk (int H div 2) (int W div 2) protect_dc y x))"
    by (auto simp: detect_peaks_zero [OF sh assms(2,3,5)])
  then have "(r, c) \<in> set (af_peaks out) \<longleftrightarrow>
              (\<exists>y<H. \<exists>x<W. r = int y \<and> c = int x \<and>
                 (protect_dc > 0 \<longrightarrow>
                    (int x - int W div 2)\<^sup>2 + (int y - int H div 2)\<^sup>2 > protect_dc\<^sup>2))" for r c
    by (auto simp: set_argwhere in_disk_def not_le)
  with o show ?thesis by blast
qed

theorem auto_frame_zero_gray_witness:
  "\<exists>out. auto_frame example_lib 2 2 1 (1/2) 2 1 1 0 [[[0], [0]], [[0], [0]]] = Inr out \<and>
         (0, 0) \<in> set (af_peaks out) \<and> (1, 1) \<notin> set (af_peaks out)"
proof -
  let ?fr = "[[[0], [0]], [[0], [0::real]]]"
  have s: "has_shape 2 2 1 ?fr" by (simp add: has_shape_def)
  have g: "to_gray example_lib 1 ?fr = Inr [[0, 0], [0, 0]]" by (simp add: to_gray_def)
  have z: "\<forall>row\<in>set [[0, 0], [0, 0::real]]. \<forall>v\<in>set row. v = 0" by simp
  from auto_frame_zero_gray [OF s _ _ g z, of "1/2" 2 1 1 0]
  obtain out where o: "auto_frame example_lib 2 2 1 (1/2) 2 1 1 0 ?fr = Inr out"
    and p: "\<forall>r c. (r, c) \<in> set (af_peaks out) \<longleftrightarrow>
              (\<exists>y<2. \<exists>x<2. r = int y \<and> c = int x \<and>
                 ((1::int) > 0 \<longrightarrow> (int x - int 2 div 2)\<^sup>2 + (int y - int 2 div 2)\<^sup>2 > (1::int)\<^sup>2))"
    by auto
  have "(0, 0) \<in> set (af_peaks out)"
    unfolding p [rule_format] by (intro exI [of _ 0] conjI) simp_all
  moreover have "(1, 1) \<notin> set (af_peaks out)"
    unfolding p [rule_format] by auto
  ultimately show ?thesis using o by blast
qed

theorem auto_frame_peaks_iff_witness:
  "\<exists>out. auto_frame example_lib 1 2 1 (1/2) 2 1 0 0 [[[0], [1]]] = Inr out \<and>
         (0, 1) \<in> set (af_peaks out) \<and> (0, 0) \<notin> set (af_peaks out)"
proof -
  let ?fr = "[[[0], [1::real]]]"
  have s: "has_shape 1 2 1 ?fr" by (simp add: has_shape_def)
  obtain out where o: "auto_frame example_lib 1 2 1 (1/2) 2 1 0 0 ?fr = Inr out"
    using auto_frame_total [OF s, of example_lib "1/2" 2 1 0 0] by auto
  from auto_frame_peaks_iff [OF s _ _ o]
  obtain gray where g: "to_gray example_lib 1 ?fr = Inr gray"
    and p: "\<forall>r c. (r, c) \<in> set (af_peaks out) \<longleftrightarrow>
              (\<exists>y<1. \<exists>x<2. r = int y \<and> c = int x \<and>
                 gray ! y ! x =
                   Max {gray ! y' ! x' | y' x'. y' < 1 \<and> x' < 2 \<and>
                          2 * \<bar>int y' - int y\<bar> < max 3 (2 * 2 + 1) \<and>
                          2 * \<bar>int x' - int x\<bar> < max 3 (2 * 2 + 1)} \<and>
                 gray ! y ! x \<ge> Rep_fmul (f32_scalar_mul example_lib) (1/2) (Max (set (concat gray))) \<and>
                 ((0::int) > 0 \<longrightarrow>
                    (int x - int 2 div 2)\<^sup>2 + (int y - int 1 div 2)\<^sup>2 > (0::int)\<^sup>2))"
    by auto
  have gray: "gray = [[0, 1]]" using g by (simp add: to_gray_def)
  have w: "{[[0, 1::real]] ! y' ! x' | y' x'. y' < 1 \<and> x' < 2 \<and>
               2 * \<bar>int y' - int y\<bar> < max 3 (2 * 2 + 1) \<and>
               2 * \<bar>int x' - int x\<bar> < max 3 (2 * 2 + 1)} = {0, 1}"
    if "y < 1" "x < 2" for y x :: nat
  proof (intro equalityI subsetI)
    fix v assume "v \<in> {[[0, 1::real]] ! y' ! x' | y' x'. y' < 1 \<and> x' < 2 \<and>
               2 * \<bar>int y' - int y\<bar> < max 3 (2 * 2 + 1) \<and>
               2 * \<bar>int x' - int x\<bar> < max 3 (2 * 2 + 1)}"
    then show "v \<in> {0, 1}" by (auto simp: less_2_cases_iff)
  next
    fix v :: real assume "v \<in> {0, 1}"
    then consider "v = 0" | "v = 1" by auto
    then show "v \<in> {[[0, 1::real]] ! y' ! x' | y' x'. y' < 1 \<and> x' < 2 \<and>
               2 * \<bar>int y' - int y\<bar> < max 3 (2 * 2 + 1) \<and>
               2 * \<bar>int x' - int x\<bar> < max 3 (2 * 2 + 1)}"
    proof cases
      case 1
      show ?thesis unfolding mem_Collect_eq
        using 1 that by (intro exI [of _ "0::nat"] conjI) auto
    next
      case 2
      show ?thesis unfolding mem_Collect_eq
        using 2 that by (intro exI [of _ "0::nat"] exI [of _ "1::nat"] conjI) auto
    qed
  qed
  have "\<exists>y<1. \<exists>x<2. (0::int) = int y \<and> (1::int) = int x \<and>
                 gray ! y ! x =
                   Max {gray ! y' ! x' | y' x'. y' < 1 \<and> x' < 2 \<and>
                          2 * \<bar>int y' - int y\<bar> < max 3 (2 * 2 + 1) \<and>
                          2 * \<bar>int x' - int x\<bar> < max 3 (2 * 2 + 1)} \<and>
                 gray ! y ! x \<ge> Rep_fmul (f32_scalar_mul example_lib) (1/2) (Max (set (concat gray))) \<and>
                 ((0::int) > 0 \<longrightarrow>
                    (int x - int 2 div 2)\<^sup>2 + (int y - int 1 div 2)\<^sup>2 > (0::int)\<^sup>2)"
    apply (rule exI [of _ "0::nat"])
    apply (rule conjI)
     apply simp
    apply (rule exI [of _ "1::nat"])
    using w [of 0 1] by (simp add: gray example_mul)
  then have "(0, 1) \<in> set (af_peaks out)"
    unfolding p [rule_format] .
  moreover have "(0, 0) \<notin> set (af_peaks out)"
  proof
    assume "(0, 0) \<in> set (af_peaks out)"
    then obtain y x :: nat where "0 = int y" "0 = int x"
      and t: "gray ! y ! x \<ge> Rep_fmul (f32_scalar_mul example_lib) (1/2) (Max (set (concat gray)))"
      unfolding p [rule_format] by blast
    then have "y = 0" "x = 0" by simp_all
    with t show False by (simp add: gray example_mul)
  qed
  ultimately show ?thesis using o by blast
qed

subsection \<open>The nodes return\<close>

lemma for_frames_total:
  "(\<forall>x\<in>set xs. \<exists>y. f x = Inr y) \<Longrightarrow> \<exists>ys. for_frames f xs = Inr ys"
  by (induction xs) auto

lemma apply_notch_total:
  assumes "batch_shape B H W C (to_bhwc spectrum)"
    and "0 < B" and "0 < H" and "0 < W" and "0 < C"
  shows "\<exists>a. apply_notch lib spectrum threshold_rel min_distance notch_radius protect_dc feather
           = Inr a"
proof -
  let ?img = "to_bhwc spectrum"
  let ?f = "auto_frame lib H W C threshold_rel min_distance notch_radius protect_dc feather"
  have sh: "shape4 ?img = (B, H, W, C)" using assms shape4_batch_shape by metis
  have "\<forall>fr\<in>set ?img. \<exists>out. ?f fr = Inr out"
    using assms auto_frame_total by (auto simp: batch_shape_def list_all_iff)
  from for_frames_total [OF this] obtain outs where o: "for_frames ?f ?img = Inr outs" by blast
  from for_frames_Inr [OF o] assms have "outs \<noteq> []" by (auto simp: batch_shape_def)
  then show ?thesis by (simp add: apply_notch_def sh Let_def o)
qed

lemma apply_manual_notch_total:
  assumes "batch_shape B H W C (to_bhwc spectrum)"
    and "0 < B" and "0 < H" and "0 < W" and "0 < C"
    and "point_circles lib (parse_points lib notch_points) = Inr circles"
  shows "\<exists>r. apply_manual_notch lib spectrum notch_points feather protect_dc = Inr r"
proof -
  let ?img = "to_bhwc spectrum"
  let ?f = "manual_frame lib H W (parse_points lib notch_points) feather protect_dc"
  have sh: "shape4 ?img = (B, H, W, C)" using assms shape4_batch_shape by metis
  have "\<forall>fr\<in>set ?img. \<exists>out. ?f fr = Inr out"
    by (simp add: manual_frame_def assms(6) Let_def)
  from for_frames_total [OF this] obtain outs where o: "for_frames ?f ?img = Inr outs" by blast
  from assms obtain frame0 rest where i: "?img = frame0 # rest"
    by (cases ?img) (auto simp: batch_shape_def)
  have "has_shape H W C frame0" using assms(1) i by (simp add: batch_shape_def)
  from has_shape_nonempty [OF this assms(3,4)] have "concat frame0 \<noteq> []" .
  then have "\<exists>png. save_temp_image C frame0 = Inr png"
    using assms(5) by (auto simp: save_temp_image_def Let_def)
  then obtain png where s: "save_temp_image C frame0 = Inr png" by blast
  have "apply_manual_notch lib spectrum notch_points feather protect_dc =
      (case ?img of
         [] \<Rightarrow> Inl ValueError
       | frame0 # _ \<Rightarrow>
           (case save_temp_image C frame0 of
              Inl e \<Rightarrow> Inl e
            | Inr png \<Rightarrow>
                Inr \<lparr> ui_image = png,
                      m_filtered_spectrum = map mf_filtered outs,
                      m_notch_mask = map (mask_image \<circ> mf_mask) outs \<rparr>))"
    by (simp add: apply_manual_notch_def Let_def sh o)
  then show ?thesis by (simp add: i s)
qed


subsection \<open>The point list of the manual node\<close>

lemma parse_points_not_array:
  assumes "\<forall>points. json_loads lib notch_points \<noteq> Inr (JArr points)"
  shows "parse_points lib notch_points = []"
  using assms by (auto simp: parse_points_def split: sum.splits json.splits)

lemma parse_points_array:
  "json_loads lib notch_points = Inr (JArr points) \<Longrightarrow> parse_points lib notch_points = points"
  by (simp add: parse_points_def)

text \<open>
  C5 (as amended). A string that \<^verbatim>\<open>json.loads\<close> rejects, or reads as something that is
  no array, is treated as the empty point list: the node returns what it returns for a
  string read as the empty array, and on a batch of non-empty frames with at least one
  channel it returns without an error. The elements of an array are not validated.
\<close>

theorem manual_unparseable_as_empty:
  assumes "\<forall>points. json_loads lib notch_points \<noteq> Inr (JArr points)"
    and "json_loads lib empty_array = Inr (JArr [])"
  shows "parse_points lib notch_points = [] \<and>
         apply_manual_notch lib spectrum notch_points feather protect_dc =
           apply_manual_notch lib spectrum empty_array feather protect_dc \<and>
         (batch_shape B H W C (to_bhwc spectrum) \<and> 0 < B \<and> 0 < H \<and> 0 < W \<and> 0 < C
            \<longrightarrow> (\<exists>r. apply_manual_notch lib spectrum notch_points feather protect_dc = Inr r))"
proof -
  have p: "parse_points lib notch_points = []" by (rule parse_points_not_array [OF assms(1)])
  have e: "parse_points lib empty_array = []" by (rule parse_points_array [OF assms(2)])
  have c: "point_circles lib (parse_points lib notch_points) = Inr []"
    by (simp add: p point_circles_def)
  have "apply_manual_notch lib spectrum notch_points feather protect_dc =
           apply_manual_notch lib spectrum empty_array feather protect_dc"
    by (simp add: apply_manual_notch_def p e)
  moreover have "\<exists>r. apply_manual_notch lib spectrum notch_points feather protect_dc = Inr r"
    if "batch_shape B H W C (to_bhwc spectrum) \<and> 0 < B \<and> 0 < H \<and> 0 < W \<and> 0 < C"
    using that apply_manual_notch_total [OF _ _ _ _ _ c, of B H W C spectrum feather protect_dc]
    by blast
  ultimately show ?thesis using p by blast
qed

theorem manual_unparseable_as_empty_witness:
  "parse_points example_lib ''{not json'' = [] \<and>
   apply_manual_notch example_lib (T4 [[[[1/2]]]]) ''{not json'' 0 0 =
     apply_manual_notch example_lib (T4 [[[[1/2]]]]) ''[]'' 0 0 \<and>
   (\<exists>r. apply_manual_notch example_lib (T4 [[[[1/2]]]]) ''{not json'' 0 0 = Inr r)"
proof -
  have a: "\<forall>points. json_loads example_lib ''{not json'' \<noteq> Inr (JArr points)"
    by (simp add: example_lib_def)
  have b: "json_loads example_lib ''[]'' = Inr (JArr [])" by (simp add: example_lib_def)
  have s: "batch_shape 1 1 1 1 (to_bhwc (T4 [[[[1/2]]]]))"
    by (simp add: batch_shape_def has_shape_def)
  have "batch_shape 1 1 1 1 (to_bhwc (T4 [[[[1/2]]]])) \<and> 0 < (1::nat) \<and> 0 < (1::nat) \<and>
        0 < (1::nat) \<and> 0 < (1::nat)"
    using s by simp
  with manual_unparseable_as_empty [OF a b, of "T4 [[[[1/2]]]]" 0 0 1 1 1 1]
  show ?thesis by blast
qed

text \<open>
  The array \<^verbatim>\<open>[1]\<close> is a malformed point list: its element has no method \<^verbatim>\<open>get\<close>, and
  the call ends with an \<^verbatim>\<open>AttributeError\<close>, while the empty list gives a result.
\<close>

theorem manual_malformed_points_counterexample:
  "apply_manual_notch example_lib (T4 [[[[1/2]]]]) ''[1]'' 0 0 = Inl AttributeError \<and>
   apply_manual_notch example_lib (T4 [[[[1/2]]]]) ''[]'' 0 0 =
     Inr \<lparr> ui_image = [[[127, 127, 127]]],
           m_filtered_spectrum = [[[[1/2]]]],
           m_notch_mask = [[[[0, 0, 0]]]] \<rparr>"
  by (simp add: apply_manual_notch_def parse_points_def example_lib_def shape4_def
      manual_frame_def point_circles_def point_peak_def get_int_def
      feather_mask_def manual_mask_def mk_grid_def apply_mask_def mask_image_def
      save_temp_image_def encode_sample_def to_u8_def clip01_def Let_def)

subsection \<open>The exported peak list\<close>

lemma apply_notch_Inr:
  assumes "apply_notch lib spectrum threshold_rel min_distance notch_radius protect_dc feather = Inr a"
    and "shape4 (to_bhwc spectrum) = (B, H, W, C)"
  shows "\<exists>frame0 rest out0 outs.
           to_bhwc spectrum = frame0 # rest \<and>
           auto_frame lib H W C threshold_rel min_distance notch_radius protect_dc feather frame0
             = Inr out0 \<and>
           for_frames (auto_frame lib H W C threshold_rel min_distance notch_radius protect_dc feather)
             rest = Inr outs \<and>
           filtered_spectrum a = map af_filtered (out0 # outs) \<and>
           notch_mask a = map af_mask_img (out0 # outs) \<and>
           preview a = map af_preview (out0 # outs) \<and>
           peak_positions a =
             json_dumps lib (JArr (map (peak_json notch_radius) (af_peaks out0)))"
proof -
  let ?f = "auto_frame lib H W C threshold_rel min_distance notch_radius protect_dc feather"
  from assms obtain os where o: "for_frames ?f (to_bhwc spectrum) = Inr os" and ne: "os \<noteq> []"
    and a: "a = \<lparr> filtered_spectrum = map af_filtered os, notch_mask = map af_mask_img os,
                   preview = map af_preview os,
                   peak_positions = json_dumps lib (JArr (case os of [] \<Rightarrow> [] | out0 # _ \<Rightarrow>
                              map (peak_json notch_radius) (af_peaks out0))) \<rparr>"
    by (auto simp: apply_notch_def Let_def split: sum.splits if_splits)
  from ne obtain out0 outs where os: "os = out0 # outs" by (cases os) auto
  from for_frames_Inr [OF o] os obtain frame0 rest where i: "to_bhwc spectrum = frame0 # rest"
    by (cases "to_bhwc spectrum") auto
  from o i os have "?f frame0 = Inr out0" "for_frames ?f rest = Inr outs"
    by (auto split: sum.splits)
  with i a os show ?thesis by simp
qed


text \<open>
  C7 (as amended). The string output of the automatic node is the serialisation of an
  array with one object \<open>{"x": col, "y": row, "r": notch_radius}\<close> per peak detected in the
  first frame of the batch, in the order of detection; the peaks of later frames are not
  exported.
\<close>

theorem peak_positions_first_frame:
  assumes "apply_notch lib spectrum threshold_rel min_distance notch_radius protect_dc feather = Inr a"
    and "shape4 (to_bhwc spectrum) = (B, H, W, C)"
  shows "\<exists>frame0 rest out0.
           to_bhwc spectrum = frame0 # rest \<and>
           auto_frame lib H W C threshold_rel min_distance notch_radius protect_dc feather frame0
             = Inr out0 \<and>
           peak_positions a =
             json_dumps lib (JArr (map
               (\<lambda>p. JObj [(''x'', JInt (snd p)), (''y'', JInt (fst p)), (''r'', JInt notch_radius)])
               (af_peaks out0)))"
  using apply_notch_Inr [OF assms] unfolding peak_json_def by blast

lemma argwhere_1x1: "argwhere 1 1 P = (if P 0 0 then [(0, 0)] else [])"
  by (simp add: argwhere_def)

lemma argwhere_1x2:
  "argwhere 1 2 P = (if P 0 0 then [(0, 0)] else []) @ (if P 0 1 then [(0, 1)] else [])"
  by (simp add: argwhere_def upt_small)

lemmas argwhere_small = argwhere_1x1 argwhere_1x2
  argwhere_1x1 [unfolded One_nat_def] argwhere_1x2 [unfolded One_nat_def]

theorem peak_positions_first_frame_witness:
  \<open>\<exists>a. apply_notch example_lib (T4 [[[[0]]]]) (1/2) 2 1 0 0 = Inr a \<and>
       peak_positions a = ''[{"x": 0, "y": 0, "r": 1}]''\<close>
proof -
  let ?sp = "T4 [[[[0]]]]"
  have s: "batch_shape 1 1 1 1 (to_bhwc ?sp)" by (simp add: batch_shape_def has_shape_def)
  have sh: "shape4 (to_bhwc ?sp) = (1, 1, 1, 1)" by (simp add: shape4_def)
  obtain a where a: "apply_notch example_lib ?sp (1/2) 2 1 0 0 = Inr a"
    using apply_notch_total [OF s, of example_lib "1/2" 2 1 0 0] by auto
  from peak_positions_first_frame [OF a sh]
  obtain out0 where o: "auto_frame example_lib 1 1 1 (1/2) 2 1 0 0 [[[0]]] = Inr out0"
    and p: "peak_positions a = json_dumps example_lib (JArr (map
               (\<lambda>p. JObj [(''x'', JInt (snd p)), (''y'', JInt (fst p)), (''r'', JInt 1)])
               (af_peaks out0)))"
    by auto
  have g: "to_gray example_lib 1 [[[0]]] = Inr [[0]]" by (simp add: to_gray_def)
  have "detect_peaks example_lib 1 1 [[0]] (1/2) 2 0 = Inr [(0, 0)]"
    using detect_peaks_zero [of "[[0]]" 1 1 example_lib "1/2" 2 0] by (simp add: argwhere_small)
  with auto_frame_Inr [OF o] g have "af_peaks out0 = [(0, 0)]" by auto
  with a p show ?thesis by (simp add: example_lib_def)
qed

lemma detect_peaks_row2:
  "detect_peaks lib 1 2 [[a, b]] threshold_rel min_distance 0 =
     Inr (argwhere 1 2 (\<lambda>y x. [a, b] ! x = max a b \<and> [a, b] ! x \<ge> Rep_fmul (f32_scalar_mul lib) threshold_rel (max a b)))"
proof -
  let ?s = "max 3 (min_distance * 2 + 1)"
  let ?nb = "maximum_filter 1 2 [[a, b]] ?s"
  have d: "1 \<le> ?s div 2" by auto
  have nb: "?nb ! y ! x = max a b" if "y < 1" "x < 2" for y x :: nat
  proof -
    have "{[[a, b]] ! y' ! x' | y' x'. y' < 1 \<and> x' < 2 \<and>
            \<bar>int y' - int y\<bar> \<le> ?s div 2 \<and> \<bar>int x' - int x\<bar> \<le> ?s div 2} = {a, b}"
    proof (intro equalityI subsetI)
      fix v assume "v \<in> {[[a, b]] ! y' ! x' | y' x'. y' < 1 \<and> x' < 2 \<and>
            \<bar>int y' - int y\<bar> \<le> ?s div 2 \<and> \<bar>int x' - int x\<bar> \<le> ?s div 2}"
      then show "v \<in> {a, b}" by (auto simp: less_2_cases_iff)
    next
      fix v assume "v \<in> {a, b}"
      then consider "v = a" | "v = b" by auto
      then show "v \<in> {[[a, b]] ! y' ! x' | y' x'. y' < 1 \<and> x' < 2 \<and>
            \<bar>int y' - int y\<bar> \<le> ?s div 2 \<and> \<bar>int x' - int x\<bar> \<le> ?s div 2}"
      proof cases
        case 1
        show ?thesis unfolding mem_Collect_eq
          using 1 that d by (intro exI [of _ "0::nat"] conjI) auto
      next
        case 2
        show ?thesis unfolding mem_Collect_eq
          using 2 that d by (intro exI [of _ "0::nat"] exI [of _ "1::nat"] conjI) auto
      qed
    qed
    then show ?thesis using maximum_filter_nth [OF that, of ?s "[[a, b]]"] by (simp add: max.commute)
  qed
  have gm: "Max (set (concat [[a, b]])) = max a b" by (simp add: max.commute)
  have pk: "is_peak lib 1 2 [[a, b]] ?nb threshold_rel (Max (set (concat [[a, b]]))) 0 y x
      = ([a, b] ! x = max a b \<and> [a, b] ! x \<ge> Rep_fmul (f32_scalar_mul lib) threshold_rel (max a b))"
    if "y < 1" "x < 2" for y x
    unfolding is_peak_def gm nb [OF that] using that by simp
  have "detect_peaks lib 1 2 [[a, b]] threshold_rel min_distance 0 =
      Inr (argwhere 1 2 (is_peak lib 1 2 [[a, b]] ?nb threshold_rel (Max (set (concat [[a, b]]))) 0))"
    by (rule detect_peaks_Inr) simp_all
  also have "\<dots> = Inr (argwhere 1 2
      (\<lambda>y x. [a, b] ! x = max a b \<and> [a, b] ! x \<ge> Rep_fmul (f32_scalar_mul lib) threshold_rel (max a b)))"
    by (rule arg_cong [where f = Inr], rule argwhere_cong) (rule pk)
  finally show ?thesis .
qed

lemmas detect_peaks_small = detect_peaks_row2 detect_peaks_row2 [unfolded One_nat_def]

text \<open>
  A batch of two frames with one peak each, at different columns: the output holds the
  peak of the first frame only, and the peak found in the second frame (row 0, column 1)
  has no object.
\<close>

theorem peak_positions_later_frames_counterexample:
  \<open>map_sum id peak_positions
     (apply_notch example_lib (T4 [[[[1], [0]]], [[[0], [1]]]]) (1/2) 2 1 0 0)
     = Inr ''[{"x": 0, "y": 0, "r": 1}]'' \<and>
   map_sum id af_peaks (auto_frame example_lib 1 2 1 (1/2) 2 1 0 0 [[[0], [1]]]) = Inr [(0, 1)]\<close>
proof -
  let ?sp = "T4 [[[[1], [0]]], [[[0], [1::real]]]]"
  have s: "batch_shape 2 1 2 1 (to_bhwc ?sp)" by (simp add: batch_shape_def has_shape_def)
  have sh: "shape4 (to_bhwc ?sp) = (2, 1, 2, 1)" by (simp add: shape4_def)
  obtain a where a: "apply_notch example_lib ?sp (1/2) 2 1 0 0 = Inr a"
    using apply_notch_total [OF s, of example_lib "1/2" 2 1 0 0] by auto
  from apply_notch_Inr [OF a sh]
  obtain out0 where o: "auto_frame example_lib 1 2 1 (1/2) 2 1 0 0 [[[1], [0]]] = Inr out0"
    and p: "peak_positions a = json_dumps example_lib (JArr (map (peak_json 1) (af_peaks out0)))"
    by auto
  have "to_gray example_lib 1 [[[1], [0]]] = Inr [[1, 0]]" by (simp add: to_gray_def)
  with auto_frame_Inr [OF o] have "af_peaks out0 = [(0, 0)]"
    by (auto simp: detect_peaks_small argwhere_small example_mul)
  with p have 1: \<open>peak_positions a = ''[{"x": 0, "y": 0, "r": 1}]''\<close>
    by (simp add: example_lib_def peak_json_def)
  have s1: "has_shape 1 2 1 [[[0], [1::real]]]" by (simp add: has_shape_def)
  obtain out1 where o1: "auto_frame example_lib 1 2 1 (1/2) 2 1 0 0 [[[0], [1]]] = Inr out1"
    using auto_frame_total [OF s1, of example_lib "1/2" 2 1 0 0] by auto
  have "to_gray example_lib 1 [[[0], [1]]] = Inr [[0, 1]]" by (simp add: to_gray_def)
  with auto_frame_Inr [OF o1] have 2: "af_peaks out1 = [(0, 1)]"
    by (auto simp: detect_peaks_small argwhere_small example_mul)
  show ?thesis unfolding a o1 by (simp add: 1 2)
qed

subsection \<open>From the automatic node to the manual node\<close>

lemma point_circles_json:
  "point_circles lib (map (peak_json notch_radius) peaks) = Inr (map (\<lambda>p. (p, notch_radius)) peaks)"
  using point_circles_points [of lib "map (\<lambda>p. (p, notch_radius)) peaks"]
  by (simp add: comp_def)

lemma manual_mask_as_build:
  "feather_mask lib H W feather (manual_mask H W (map (\<lambda>p. (p, notch_radius)) peaks) 0) =
     build_circular_mask lib H W peaks notch_radius feather"
proof -
  have "manual_mask H W (map (\<lambda>p. (p, notch_radius)) peaks) 0 =
          foldl (paint_disk H W notch_radius) (mk_grid H W (\<lambda>y x. 0)) peaks"
    unfolding manual_mask_eq binary_mask_eq by (rule mk_grid_cong) auto
  then show ?thesis by (simp add: build_circular_mask_def)
qed


lemma apply_manual_notch_Inr:
  assumes "apply_manual_notch lib spectrum notch_points feather protect_dc = Inr r"
    and "shape4 (to_bhwc spectrum) = (B, H, W, C)"
  shows "\<exists>frame0 rest m0 mouts.
           to_bhwc spectrum = frame0 # rest \<and>
           manual_frame lib H W (parse_points lib notch_points) feather protect_dc frame0 = Inr m0 \<and>
           m_filtered_spectrum r = map mf_filtered (m0 # mouts) \<and>
           m_notch_mask r = map (mask_image \<circ> mf_mask) (m0 # mouts)"
proof -
  let ?f = "manual_frame lib H W (parse_points lib notch_points) feather protect_dc"
  obtain os where o: "for_frames ?f (to_bhwc spectrum) = Inr os"
    using assms by (cases "for_frames ?f (to_bhwc spectrum)") (simp_all add: apply_manual_notch_def Let_def)
  have "apply_manual_notch lib spectrum notch_points feather protect_dc =
      (case to_bhwc spectrum of
         [] \<Rightarrow> Inl ValueError
       | frame0 # _ \<Rightarrow>
           (case save_temp_image C frame0 of
              Inl e \<Rightarrow> Inl e
            | Inr png \<Rightarrow>
                Inr \<lparr> ui_image = png,
                      m_filtered_spectrum = map mf_filtered os,
                      m_notch_mask = map (mask_image \<circ> mf_mask) os \<rparr>))"
    by (simp add: apply_manual_notch_def Let_def assms(2) o)
  with assms(1) obtain frame0 rest where i: "to_bhwc spectrum = frame0 # rest"
    and f: "m_filtered_spectrum r = map mf_filtered os"
    and m: "m_notch_mask r = map (mask_image \<circ> mf_mask) os"
    by (auto split: list.splits sum.splits)
  from o i obtain m0 mouts where "?f frame0 = Inr m0" "os = m0 # mouts"
    by (auto split: sum.splits)
  with i f m show ?thesis by blast
qed

text \<open>
  C4. When the string output of the automatic node is read back by \<^verbatim>\<open>json.loads\<close> as
  the value that was written, the manual node run on it with the same feather value (0
  in particular) and \<open>protect_dc = 0\<close> returns, for the frame the peaks were detected in
  (the first of the batch), the mask and the filtered frame of the automatic node.
\<close>

theorem auto_peaks_reproduce_mask:
  assumes "batch_shape B H W C (to_bhwc spectrum)" and "0 < H" and "0 < W"
    and "apply_notch lib spectrum threshold_rel min_distance notch_radius protect_dc feather = Inr a"
    and "\<forall>v. peak_positions a = json_dumps lib v \<longrightarrow> json_loads lib (peak_positions a) = Inr v"
  shows "\<exists>r. apply_manual_notch lib spectrum (peak_positions a) feather 0 = Inr r \<and>
             m_notch_mask r ! 0 = notch_mask a ! 0 \<and>
             m_filtered_spectrum r ! 0 = filtered_spectrum a ! 0"
proof -
  have B: "0 < B"
  proof (rule ccontr)
    assume "\<not> 0 < B"
    then have "to_bhwc spectrum = []" using assms(1) by (simp add: batch_shape_def)
    then show False using assms(4) by (simp add: apply_notch_def Let_def shape4_def)
  qed
  have sh: "shape4 (to_bhwc spectrum) = (B, H, W, C)"
    using shape4_batch_shape [OF assms(1) B assms(2,3)] .
  from apply_notch_Inr [OF assms(4) sh] obtain frame0 rest out0 outs where
    i: "to_bhwc spectrum = frame0 # rest"
    and o0: "auto_frame lib H W C threshold_rel min_distance notch_radius protect_dc feather frame0
               = Inr out0"
    and am: "notch_mask a = map af_mask_img (out0 # outs)"
    and af: "filtered_spectrum a = map af_filtered (out0 # outs)"
    and pp: "peak_positions a = json_dumps lib (JArr (map (peak_json notch_radius) (af_peaks out0)))"
    by blast
  let ?peaks = "af_peaks out0"
  let ?mask = "build_circular_mask lib H W ?peaks notch_radius feather"
  from auto_frame_Inr [OF o0] have
    a1: "af_mask_img out0 = mask_image ?mask" and a2: "af_filtered out0 = apply_mask frame0 ?mask"
    by auto
  from assms(5) pp
  have "json_loads lib (peak_positions a) = Inr (JArr (map (peak_json notch_radius) ?peaks))"
    by blast
  then have pts: "parse_points lib (peak_positions a) = map (peak_json notch_radius) ?peaks"
    by (rule parse_points_array)
  have pc: "point_circles lib (parse_points lib (peak_positions a)) =
              Inr (map (\<lambda>p. (p, notch_radius)) ?peaks)"
    unfolding pts by (rule point_circles_json)
  have C: "0 < C" using auto_frame_Inr [OF o0] by (cases "C = 0") (auto simp: to_gray_def)
  from apply_manual_notch_total [OF assms(1) B assms(2,3) C pc]
  obtain r where r: "apply_manual_notch lib spectrum (peak_positions a) feather 0 = Inr r"
    by blast
  from apply_manual_notch_Inr [OF r sh] i obtain m0 mouts where
    m0: "manual_frame lib H W (parse_points lib (peak_positions a)) feather 0 frame0 = Inr m0"
    and mf: "m_filtered_spectrum r = map mf_filtered (m0 # mouts)"
    and mm: "m_notch_mask r = map (mask_image \<circ> mf_mask) (m0 # mouts)"
    by auto
  from manual_frame_Inr [OF m0] pc have
    "mf_mask m0 = ?mask" "mf_filtered m0 = apply_mask frame0 ?mask"
    by (auto simp: manual_mask_as_build)
  with a1 a2 am af mf mm have
    "m_notch_mask r ! 0 = notch_mask a ! 0" "m_filtered_spectrum r ! 0 = filtered_spectrum a ! 0"
    by simp_all
  with r show ?thesis by blast
qed

lemma example_zero_run:
  \<open>\<exists>a. apply_notch example_lib (T4 [[[[0]]]]) (1/2) 2 1 0 0 = Inr a \<and>
       peak_positions a = ''[{"x": 0, "y": 0, "r": 1}]''\<close>
proof -
  let ?sp = "T4 [[[[0]]]]"
  have s: "batch_shape 1 1 1 1 (to_bhwc ?sp)" by (simp add: batch_shape_def has_shape_def)
  have sh: "shape4 (to_bhwc ?sp) = (1, 1, 1, 1)" by (simp add: shape4_def)
  obtain a where a: "apply_notch example_lib ?sp (1/2) 2 1 0 0 = Inr a"
    using apply_notch_total [OF s, of example_lib "1/2" 2 1 0 0] by auto
  from apply_notch_Inr [OF a sh]
  obtain out0 where o: "auto_frame example_lib 1 1 1 (1/2) 2 1 0 0 [[[0]]] = Inr out0"
    and p: "peak_positions a = json_dumps example_lib (JArr (map (peak_json 1) (af_peaks out0)))"
    by auto
  have g: "to_gray example_lib 1 [[[0]]] = Inr [[0]]" by (simp add: to_gray_def)
  have "detect_peaks example_lib 1 1 [[0]] (1/2) 2 0 = Inr [(0, 0)]"
    using detect_peaks_zero [of "[[0]]" 1 1 example_lib "1/2" 2 0] by (simp add: argwhere_small)
  with auto_frame_Inr [OF o] g have "af_peaks out0 = [(0, 0)]" by auto
  with a p show ?thesis by (simp add: example_lib_def peak_json_def)
qed

theorem auto_peaks_reproduce_mask_witness:
  "\<exists>a r. apply_notch example_lib (T4 [[[[0]]]]) (1/2) 2 1 0 0 = Inr a \<and>
     apply_manual_notch example_lib (T4 [[[[0]]]]) (peak_positions a) 0 0 = Inr r \<and>
     m_notch_mask r ! 0 = notch_mask a ! 0 \<and>
     m_filtered_spectrum r ! 0 = filtered_spectrum a ! 0"
proof -
  let ?sp = "T4 [[[[0]]]]"
  have s: "batch_shape 1 1 1 1 (to_bhwc ?sp)" by (simp add: batch_shape_def has_shape_def)
  from example_zero_run obtain a where
    a: "apply_notch example_lib ?sp (1/2) 2 1 0 0 = Inr a"
    and p: \<open>peak_positions a = ''[{"x": 0, "y": 0, "r": 1}]''\<close>
    by blast
  have rt: "\<forall>v. peak_positions a = json_dumps example_lib v \<longrightarrow>
              json_loads example_lib (peak_positions a) = Inr v"
    unfolding p by (simp add: example_lib_def)
  from auto_peaks_reproduce_mask [OF s _ _ a rt] a show ?thesis by auto
qed

subsection \<open>The annotated preview\<close>

lemma clipped_nth:
  assumes "has_shape H W C fr" and "y < H" and "x < W"
  shows "map (map (map clip01)) fr ! y ! x = map clip01 (fr ! y ! x)"
proof -
  have "y < length fr" using assms by (simp add: has_shape_def)
  moreover have "x < length (fr ! y)" using assms has_shape_row by metis
  ultimately show ?thesis by simp
qed

lemma tint_peak_outside:
  assumes "y < H" and "x < W"
    and "\<not> in_ring64 (fst p) (snd p) (radius + 2) (max 0 (radius - 1)) y x"
  shows "tint_peak H W C radius pv p ! y ! x = pv ! y ! x"
  using assms by (simp add: tint_peak_def mk_grid_nth)

lemma foldl_tint_peak_outside:
  assumes "y < H" and "x < W"
    and "\<forall>p\<in>set peaks. \<not> in_ring64 (fst p) (snd p) (radius + 2) (max 0 (radius - 1)) y x"
  shows "foldl (tint_peak H W C radius) pv peaks ! y ! x = pv ! y ! x"
  using assms(3)
proof (induction peaks arbitrary: pv)
  case Nil
  show ?case by simp
next
  case (Cons p ps)
  then show ?case using tint_peak_outside [OF assms(1,2), of p radius C pv] by simp
qed

text \<open>
  C8 (as amended). In the preview of a frame with \<open>dc_r > 0\<close>, take a pixel of the ring
  around the centre (squared distance at most \<open>(dc_r + 1)\<^sup>2\<close> but not at most
  \<open>(dc_r - 1)\<^sup>2\<close>) that lies in no peak's ring, the peaks being less than \<open>2\<^sup>3\<^sup>1\<close> rows and
  columns away from it. If the frame has at least three channels, the pixel has the
  colour \<open>(0.2, 0.5, 1.0)\<close> in its first three channels and the clipped samples of the
  frame in the others; if it has fewer, the pixel keeps its clipped samples: there is no
  DC ring.
\<close>

theorem annotate_preview_dc_ring:
  assumes "has_shape H W C fr" and "0 < dc_r" and "y < H" and "x < W"
    and "(int x - int W div 2)\<^sup>2 + (int y - int H div 2)\<^sup>2 \<le> (dc_r + 1)\<^sup>2"
    and "\<not> (int x - int W div 2)\<^sup>2 + (int y - int H div 2)\<^sup>2 \<le> (dc_r - 1)\<^sup>2"
    and "\<forall>p\<in>set peaks.
           \<bar>int x - snd p\<bar> < 2 ^ 31 \<and> \<bar>int y - fst p\<bar> < 2 ^ 31 \<and>
           \<not> ((int x - snd p)\<^sup>2 + (int y - fst p)\<^sup>2 \<le> (radius + 2)\<^sup>2 \<and>
              \<not> (int x - snd p)\<^sup>2 + (int y - fst p)\<^sup>2 \<le> (max 0 (radius - 1))\<^sup>2)"
  shows "(3 \<le> C \<longrightarrow>
            take 3 (annotate_preview fr peaks radius dc_r H W C ! y ! x) = [0.2, 0.5, 1.0] \<and>
            drop 3 (annotate_preview fr peaks radius dc_r H W C ! y ! x) =
              map clip01 (drop 3 (fr ! y ! x))) \<and>
         (C < 3 \<longrightarrow>
            annotate_preview fr peaks radius dc_r H W C ! y ! x = map clip01 (fr ! y ! x))"
proof -
  let ?px = "map clip01 (fr ! y ! x)"
  have ring: "in_ring (int H div 2) (int W div 2) (dc_r + 1) (dc_r - 1) y x"
    using assms(5,6) by (simp add: in_ring_def in_disk_def)
  have np: "\<forall>p\<in>set peaks. \<not> in_ring64 (fst p) (snd p) (radius + 2) (max 0 (radius - 1)) y x"
  proof
    fix p assume "p \<in> set peaks"
    with assms(7) have b: "\<bar>int x - snd p\<bar> < 2 ^ 31" "\<bar>int y - fst p\<bar> < 2 ^ 31"
      and n: "\<not> ((int x - snd p)\<^sup>2 + (int y - fst p)\<^sup>2 \<le> (radius + 2)\<^sup>2 \<and>
              \<not> (int x - snd p)\<^sup>2 + (int y - fst p)\<^sup>2 \<le> (max 0 (radius - 1))\<^sup>2)"
      by blast+
    show "\<not> in_ring64 (fst p) (snd p) (radius + 2) (max 0 (radius - 1)) y x"
      unfolding in_ring64_def in_disk64_exact [OF b] using n .
  qed
  have pv: "annotate_preview fr peaks radius dc_r H W C ! y ! x =
          tint_dc H W C dc_r (map (map (map clip01)) fr) ! y ! x"
    unfolding annotate_preview_def by (rule foldl_tint_peak_outside [OF assms(3,4) np])
  have len: "length ?px = C" using assms has_shape_px by (metis length_map)
  show ?thesis
  proof (intro conjI impI)
    assume c3: "3 \<le> C"
    then obtain a b c rest where px: "?px = a # b # c # rest"
      using len by (metis Suc_le_length_iff numeral_3_eq_3)
    have "tint_dc H W C dc_r (map (map (map clip01)) fr) ! y ! x = ?px[0 := 0.2, 1 := 0.5, 2 := 1.0]"
      using c3 assms(2,3,4) ring by (simp add: tint_dc_def mk_grid_nth clipped_nth [OF assms(1,3,4)])
    with pv have e: "annotate_preview fr peaks radius dc_r H W C ! y ! x = 0.2 # 0.5 # 1.0 # rest"
      by (simp add: px)
    have "drop 3 ?px = rest" by (simp add: px)
    then have r: "map clip01 (drop 3 (fr ! y ! x)) = rest" by (simp add: drop_map)
    show "take 3 (annotate_preview fr peaks radius dc_r H W C ! y ! x) = [0.2, 0.5, 1.0]"
      using e by simp
    show "drop 3 (annotate_preview fr peaks radius dc_r H W C ! y ! x) =
              map clip01 (drop 3 (fr ! y ! x))"
      using e r by simp
  next
    assume "C < 3"
    then show "annotate_preview fr peaks radius dc_r H W C ! y ! x = ?px"
      using pv by (simp add: tint_dc_def clipped_nth [OF assms(1,3,4)])
  qed
qed

theorem annotate_preview_dc_ring_witness:
  "take 3 (annotate_preview
     [[[0,0,0],[0,0,0],[0,0,0]], [[0,0,0],[0,0,0],[0,0,0]], [[0,0,0],[0,0,0],[0,0,0]]]
     [] 1 1 3 3 3 ! 0 ! 1) = [0.2, 0.5, 1.0]"
proof -
  let ?fr = "[[[0,0,0],[0,0,0],[0,0,0]], [[0,0,0],[0,0,0],[0,0,0]], [[0,0,0],[0,0,0],[0,0,0::real]]]"
  have s: "has_shape 3 3 3 ?fr" by (simp add: has_shape_def)
  from annotate_preview_dc_ring [OF s, of 1 0 1 "[]" 1] show ?thesis by simp
qed

text \<open>
  The ring pixel (0, 1) of a 3 by 3 colour frame lies in the ring of the peak at (0, 0)
  (one of the four corners that are detected in a black frame with \<open>dc_r = 1\<close>) and is
  yellow; in a single-channel frame it keeps its clipped sample.
\<close>

theorem annotate_preview_dc_ring_counterexample:
  "annotate_preview
     [[[0,0,0],[0,0,0],[0,0,0]], [[0,0,0],[0,0,0],[0,0,0]], [[0,0,0],[0,0,0],[0,0,0]]]
     [(0, 0), (0, 2), (2, 0), (2, 2)] 1 1 3 3 3 ! 0 ! 1 = [1, 9/10, 0] \<and>
   annotate_preview [[[1/4],[1/4],[1/4]], [[1/4],[1/4],[1/4]], [[1/4],[1/4],[1/4]]]
     [] 1 1 3 3 1 ! 0 ! 1 = [1/4] \<and>
   (int 1 - int 3 div 2)\<^sup>2 + (int 0 - int 3 div 2)\<^sup>2 \<le> (1 + 1 :: int)\<^sup>2 \<and>
   \<not> (int 1 - int 3 div 2)\<^sup>2 + (int 0 - int 3 div 2)\<^sup>2 \<le> (1 - 1 :: int)\<^sup>2"
  by (simp add: annotate_preview_def tint_peak_def tint_dc_def mk_grid_def in_ring_def in_disk_def
      in_ring64_def in_disk64_exact clip01_def upt_small power2_eq_square)

end
